theory Spec2Isabelle
  imports Main "HOL-Library.Sublist"
begin

section \<open>JavaScript values\<close>

text \<open>
  The handlers of \<^verbatim>\<open>index.ts\<close> receive untyped values: the argument bag of a tool call
  and the data of a GraphQL response (\<^verbatim>\<open>data as any\<close>). They are modelled by one datatype
  of JSON-like values with \<^verbatim>\<open>undefined\<close> added. Numbers are integers (the GraphQL schema
  types every number the handlers touch as \<^verbatim>\<open>Int\<close>); fractions and \<^verbatim>\<open>NaN\<close> are not
  modelled. An object is an association list; the first binding of a key is its value.
\<close>

datatype json =
    JUndefined
  | JNull
  | JBool bool
  | JNum int
  | JStr string
  | JArr "json list"
  | JObj "(string \<times> json) list"

text \<open>Truthiness, as tested by \<^verbatim>\<open>if (v)\<close>, \<^verbatim>\<open>!v\<close>, \<^verbatim>\<open>a && b\<close>, \<^verbatim>\<open>a || b\<close> and \<^verbatim>\<open>c ? x : y\<close>.\<close>

fun truthy :: "json \<Rightarrow> bool" where
  "truthy JUndefined = False"
| "truthy JNull = False"
| "truthy (JBool b) = b"
| "truthy (JNum n) = (n \<noteq> 0)"
| "truthy (JStr s) = (s \<noteq> [])"
| "truthy (JArr xs) = True"
| "truthy (JObj kvs) = True"

definition js_or :: "json \<Rightarrow> json \<Rightarrow> json" where
  "js_or a b = (if truthy a then a else b)"

definition js_and :: "json \<Rightarrow> json \<Rightarrow> json" where
  "js_and a b = (if truthy a then b else a)"

text \<open>
  Property read \<^verbatim>\<open>v.k\<close> on a value that is neither \<^verbatim>\<open>null\<close> nor \<^verbatim>\<open>undefined\<close>. The
  handlers only read the names \<^verbatim>\<open>pages\<close>, \<^verbatim>\<open>list\<close>, \<^verbatim>\<open>single\<close>, \<^verbatim>\<open>singleByPath\<close>,
  \<^verbatim>\<open>create\<close>, \<^verbatim>\<open>update\<close>, \<^verbatim>\<open>responseResult\<close>, \<^verbatim>\<open>succeeded\<close>, \<^verbatim>\<open>message\<close>, \<^verbatim>\<open>page\<close>,
  \<^verbatim>\<open>id\<close>, \<^verbatim>\<open>path\<close>, \<^verbatim>\<open>title\<close>, \<^verbatim>\<open>content\<close>, \<^verbatim>\<open>updatedAt\<close>, \<^verbatim>\<open>orderBy\<close>, \<^verbatim>\<open>limit\<close>,
  \<^verbatim>\<open>editor\<close> and \<^verbatim>\<open>isPublished\<close>, none of which a primitive or an array has, so the
  read gives \<^verbatim>\<open>undefined\<close> there. (On \<^verbatim>\<open>null\<close> and \<^verbatim>\<open>undefined\<close> the read throws: that is
  \<open>prop_strict\<close> below; \<open>get_prop\<close> is used where the source guards the read.)
\<close>

fun get_prop :: "json \<Rightarrow> string \<Rightarrow> json" where
  "get_prop (JObj kvs) k = (case map_of kvs k of None \<Rightarrow> JUndefined | Some v \<Rightarrow> v)"
| "get_prop v k = JUndefined"

text \<open>The operator \<^verbatim>\<open>k in v\<close> on an object or array, for the same names.\<close>

fun has_prop :: "string \<Rightarrow> json \<Rightarrow> bool" where
  "has_prop k (JObj kvs) = (map_of kvs k \<noteq> None)"
| "has_prop k v = False"

text \<open>\<^verbatim>\<open>typeof v === "object" && v !== null\<close>\<close>

fun is_object :: "json \<Rightarrow> bool" where
  "is_object (JObj kvs) = True"
| "is_object (JArr xs) = True"
| "is_object v = False"

fun is_number :: "json \<Rightarrow> bool" where
  "is_number (JNum n) = True"
| "is_number v = False"

fun is_string :: "json \<Rightarrow> bool" where
  "is_string (JStr s) = True"
| "is_string v = False"

subsection \<open>Strings\<close>

definition NL :: string where
  "NL = [CHR 0x0A]"

definition digit_char :: "nat \<Rightarrow> char" where
  "digit_char d = ''0123456789'' ! d"

fun show_nat :: "nat \<Rightarrow> string" where
  "show_nat n = (if n < 10 then [digit_char n] else show_nat (n div 10) @ [digit_char (n mod 10)])"

declare show_nat.simps [simp del]

definition show_int :: "int \<Rightarrow> string" where
  "show_int i = (if i < 0 then ''-'' @ show_nat (nat (- i)) else show_nat (nat i))"

text \<open>\<^verbatim>\<open>Array.prototype.join\<close> on an array of strings.\<close>

fun js_join :: "string \<Rightarrow> string list \<Rightarrow> string" where
  "js_join sep [] = []"
| "js_join sep [x] = x"
| "js_join sep (x # y # ys) = x @ sep @ js_join sep (y # ys)"

text \<open>
  \<^verbatim>\<open>String(v)\<close>, which is also what a template literal \<^verbatim>\<open>${v}\<close> inserts. An array joins its
  elements with commas, \<^verbatim>\<open>null\<close> and \<^verbatim>\<open>undefined\<close> elements giving the empty string. The
  function is that of JavaScript on the values a JSON text can hold and the schema allows:
  an integer is printed in decimal, which is what JavaScript does below \<^verbatim>\<open>1e21\<close> (from there
  on it prints an exponent), and an object gives \<^verbatim>\<open>[object Object]\<close>, which is what
  JavaScript does unless the object has a property \<^verbatim>\<open>toString\<close> of its own.
\<close>

fun js_toString :: "json \<Rightarrow> string" where
  "js_toString JUndefined = ''undefined''"
| "js_toString JNull = ''null''"
| "js_toString (JBool b) = (if b then ''true'' else ''false'')"
| "js_toString (JNum n) = show_int n"
| "js_toString (JStr s) = s"
| "js_toString (JArr xs) =
     js_join '','' (map (\<lambda>x. if x = JNull \<or> x = JUndefined then [] else js_toString x) xs)"
| "js_toString (JObj kvs) = ''[object Object]''"

text \<open>\<^verbatim>\<open>path.startsWith('/')\<close> and \<^verbatim>\<open>path.substring(1)\<close>\<close>

fun startsWith_slash :: "string \<Rightarrow> bool" where
  "startsWith_slash [] = False"
| "startsWith_slash (c # cs) = (c = CHR ''/'')"

definition substring1 :: "string \<Rightarrow> string" where
  "substring1 s = drop 1 s"

text \<open>\<^verbatim>\<open>s.includes(t)\<close> on strings: \<open>t\<close> occurs in \<open>s\<close> as a contiguous run.\<close>

fun str_includes :: "string \<Rightarrow> string \<Rightarrow> bool" where
  "str_includes [] t = (t = [])"
| "str_includes (c # cs) t = (prefix t (c # cs) \<or> str_includes cs t)"

subsection \<open>Thrown values\<close>

text \<open>
  What a \<^verbatim>\<open>catch\<close> clause can receive: an \<^verbatim>\<open>Error\<close> object (name, message, stack) or any
  other value.
\<close>

datatype thrown =
    JsError string string string
  | JsValue json

text \<open>\<^verbatim>\<open>error instanceof Error ? error.message : String(error)\<close>\<close>

fun error_message :: "thrown \<Rightarrow> string" where
  "error_message (JsError name msg stack) = msg"
| "error_message (JsValue v) = js_toString v"

section \<open>The environment of a tool call\<close>

datatype query =
    LIST_PAGES_QUERY
  | GET_PAGE_BY_ID_QUERY
  | GET_PAGE_BY_PATH_QUERY
  | CREATE_PAGE_MUTATION
  | UPDATE_PAGE_MUTATION

type_synonym gql_call = "query \<times> json"

text \<open>
  Everything a handler takes from outside the file is a field of the environment:
  \<^item> \<open>graphql_request\<close> is \<^verbatim>\<open>graphqlClient.request\<close>: given the calls already made during this
    tool call and the present call (document and variables), the wiki server's data, or the
    value the promise rejects with;
  \<^item> \<open>JSON_stringify\<close> is \<^verbatim>\<open>JSON.stringify(data, null, 2)\<close> as a template literal inserts it;
  \<^item> \<open>JSON_stringify_flat\<close> is \<^verbatim>\<open>JSON.stringify(data)\<close>, likewise;
  \<^item> \<open>toLocaleString\<close> is \<^verbatim>\<open>new Date(v).toLocaleString()\<close>;
  \<^item> \<open>error_stack\<close> is the stack text the engine gives an error of that name and message;
  \<^item> \<open>query_text\<close> is the text of a \<^verbatim>\<open>gql\<close> document;
  \<^item> \<open>WIKI_API_URL\<close> and \<open>WIKI_API_TOKEN\<close> are the two settings read at startup.
  Writing to the error stream (\<^verbatim>\<open>console.error\<close>) is not modelled.
\<close>

record env =
  graphql_request :: "gql_call list \<Rightarrow> gql_call \<Rightarrow> thrown + json"
  JSON_stringify :: "json \<Rightarrow> string"
  JSON_stringify_flat :: "json \<Rightarrow> string"
  toLocaleString :: "json \<Rightarrow> string"
  error_stack :: "string \<Rightarrow> string \<Rightarrow> string"
  query_text :: "query \<Rightarrow> string"
  WIKI_API_URL :: string
  WIKI_API_TOKEN :: string

text \<open>One \<^verbatim>\<open>await graphqlClient.request(q, vars)\<close>: the call is appended to the log.\<close>

definition request :: "env \<Rightarrow> query \<Rightarrow> json \<Rightarrow> gql_call list \<Rightarrow> (thrown + json) \<times> gql_call list" where
  "request env q vars log = (graphql_request env log (q, vars), log @ [(q, vars)])"

definition new_Error :: "env \<Rightarrow> string \<Rightarrow> thrown" where
  "new_Error env msg = JsError ''Error'' msg (error_stack env ''Error'' msg)"

text \<open>A \<^verbatim>\<open>TypeError\<close> raised by the engine; the message texts are those of V8.\<close>

definition TypeError :: "env \<Rightarrow> string \<Rightarrow> thrown" where
  "TypeError env msg = JsError ''TypeError'' msg (error_stack env ''TypeError'' msg)"

text \<open>Property read \<^verbatim>\<open>v.k\<close> with no guard: throws on \<^verbatim>\<open>null\<close> and \<^verbatim>\<open>undefined\<close>.\<close>

definition prop_strict :: "env \<Rightarrow> json \<Rightarrow> string \<Rightarrow> thrown + json" where
  "prop_strict env v k =
     (if v = JUndefined \<or> v = JNull
      then Inl (TypeError env (''Cannot read properties of '' @ js_toString v @ '' (reading ''
                 @ [CHR 0x27] @ k @ [CHR 0x27] @ '')''))
      else Inr (get_prop v k))"

section \<open>Tool results\<close>

record ContentBlock =
  block_type :: string
  block_text :: string

record ToolCallResult =
  content :: "ContentBlock list"
  isError :: bool

text \<open>\<^verbatim>\<open>{ content: [{ type: "text", text: t }], isError: e }\<close>\<close>

definition text_result :: "string \<Rightarrow> bool \<Rightarrow> ToolCallResult" where
  "text_result t e = \<lparr>content = [\<lparr>block_type = ''text'', block_text = t\<rparr>], isError = e\<rparr>"

section \<open>Argument validation\<close>

text \<open>The four type guards are the same text in every revision of the file.\<close>

definition isListPagesArgs :: "json \<Rightarrow> bool" where
  "isListPagesArgs args = is_object args"

definition isGetPageArgs :: "json \<Rightarrow> bool" where
  "isGetPageArgs args =
     (is_object args \<and>
      ((has_prop ''id'' args \<and> is_number (get_prop args ''id'')) \<or>
       (has_prop ''path'' args \<and> is_string (get_prop args ''path''))))"

definition isCreatePageArgs :: "json \<Rightarrow> bool" where
  "isCreatePageArgs args =
     (is_object args \<and>
      has_prop ''path'' args \<and> is_string (get_prop args ''path'') \<and>
      has_prop ''title'' args \<and> is_string (get_prop args ''title'') \<and>
      has_prop ''content'' args \<and> is_string (get_prop args ''content''))"

definition isUpdatePageArgs :: "json \<Rightarrow> bool" where
  "isUpdatePageArgs args =
     (is_object args \<and>
      ((has_prop ''id'' args \<and> is_number (get_prop args ''id'')) \<or>
       (has_prop ''path'' args \<and> is_string (get_prop args ''path''))))"

section \<open>wiki_list_pages\<close>

text \<open>
  The handler is the same text in every revision (\<^verbatim>\<open>src/index.ts\<close> lines 362-388 and
  \<^verbatim>\<open>unnamed/part_000\<close> lines 320-346). It has no \<^verbatim>\<open>try\<close> of its own: what it throws reaches
  the catch-all of the dispatcher.
\<close>

text \<open>The callback of \<^verbatim>\<open>pages.map\<close>: one page of the listing as text.\<close>

definition pageLine :: "env \<Rightarrow> json \<Rightarrow> thrown + string" where
  "pageLine env page =
     (case prop_strict env page ''title'' of
        Inl e \<Rightarrow> Inl e
      | Inr title \<Rightarrow>
          Inr (''- '' @ js_toString title @ '' (ID: '' @ js_toString (get_prop page ''id'')
               @ '', Path: '' @ js_toString (get_prop page ''path'') @ '')''
               @ (if truthy (get_prop page ''updatedAt'')
                  then NL @ ''  Last Updated: '' @ toLocaleString env (get_prop page ''updatedAt'')
                  else [])))"

text \<open>The callback applied from left to right; the first throw ends the map.\<close>

fun map_throw :: "('a \<Rightarrow> thrown + 'b) \<Rightarrow> 'a list \<Rightarrow> thrown + 'b list" where
  "map_throw f [] = Inr []"
| "map_throw f (x # xs) =
     (case f x of
        Inl e \<Rightarrow> Inl e
      | Inr y \<Rightarrow> (case map_throw f xs of Inl e \<Rightarrow> Inl e | Inr ys \<Rightarrow> Inr (y # ys)))"

text \<open>
  \<^verbatim>\<open>pages.map(...).join('\n\n')\<close> followed by \<^verbatim>\<open>pages.length > 0 ? pageList : "No pages found"\<close>,
  for \<^verbatim>\<open>pages\<close> any value: only an array has \<^verbatim>\<open>map\<close>.
\<close>

fun list_text :: "env \<Rightarrow> json \<Rightarrow> thrown + string" where
  "list_text env (JArr pages) =
     (case map_throw (pageLine env) pages of
        Inl e \<Rightarrow> Inl e
      | Inr ls \<Rightarrow> Inr (if length pages > 0 then js_join (NL @ NL) ls else ''No pages found''))"
| "list_text env JUndefined =
     Inl (TypeError env (''Cannot read properties of undefined (reading '' @ [CHR 0x27] @ ''map'' @ [CHR 0x27] @ '')''))"
| "list_text env JNull =
     Inl (TypeError env (''Cannot read properties of null (reading '' @ [CHR 0x27] @ ''map'' @ [CHR 0x27] @ '')''))"
| "list_text env v = Inl (TypeError env ''pages.map is not a function'')"

definition wiki_list_pages :: "env \<Rightarrow> json \<Rightarrow> gql_call list \<Rightarrow> (thrown + ToolCallResult) \<times> gql_call list" where
  "wiki_list_pages env args log =
     (if \<not> isListPagesArgs args
      then (Inl (new_Error env ''Invalid arguments for wiki_list_pages''), log)
      else
        let orderBy = js_or (get_prop args ''orderBy'') (JStr ''TITLE'');
            limit = js_or (get_prop args ''limit'') (JNum 10)
        in case request env LIST_PAGES_QUERY (JObj [(''orderBy'', orderBy), (''limit'', limit)]) log of
             (Inl e, log1) \<Rightarrow> (Inl e, log1)
           | (Inr data, log1) \<Rightarrow>
               (case prop_strict env data ''pages'' of
                  Inl e \<Rightarrow> (Inl e, log1)
                | Inr pgs \<Rightarrow>
                    (case prop_strict env pgs ''list'' of
                       Inl e \<Rightarrow> (Inl e, log1)
                     | Inr pages \<Rightarrow>
                         (case list_text env pages of
                            Inl e \<Rightarrow> (Inl e, log1)
                          | Inr t \<Rightarrow> (Inr (text_result t False), log1)))))"

section \<open>Path normalization\<close>

text \<open>
  \<^verbatim>\<open>src/index.ts\<close> holds three revisions of the program, called A (lines 1-763), B (lines
  764-1405) and C (lines 1406-2156) here; \<^verbatim>\<open>unnamed/part_000\<close> is a fourth, called D.
  Revisions A, B and C define \<^verbatim>\<open>normalizePath\<close> as the same function (A with an
  \<^verbatim>\<open>if\<close>, B and C with a conditional expression): a leading slash is removed.
\<close>

definition normalizePath :: "string \<Rightarrow> string" where
  "normalizePath path = (if startsWith_slash path then substring1 path else path)"

text \<open>Revision D (\<^verbatim>\<open>part_000\<close> lines 207-209) adds the slash instead.\<close>

definition normalizePath_D :: "string \<Rightarrow> string" where
  "normalizePath_D path = (if startsWith_slash path then path else ''/'' @ path)"

text \<open>
  The functions are typed for strings, and \<^verbatim>\<open>args.path\<close> is passed to them after a test for
  truthiness only. On a value that is not a string \<^verbatim>\<open>path.startsWith\<close> is no function
  and the call throws.
\<close>

fun path_string :: "env \<Rightarrow> json \<Rightarrow> thrown + string" where
  "path_string env (JStr p) = Inr p"
| "path_string env v = Inl (TypeError env ''path.startsWith is not a function'')"

text \<open>The guarded read \<^verbatim>\<open>d && d.a && d.a.b\<close>.\<close>

definition guarded :: "json \<Rightarrow> string \<Rightarrow> string \<Rightarrow> json" where
  "guarded d a b = js_and (js_and d (get_prop d a)) (get_prop (get_prop d a) b)"

section \<open>Revision D: \<^verbatim>\<open>unnamed/part_000\<close>\<close>

subsection \<open>wiki_get_page (lines 348-399)\<close>

text \<open>The inner \<^verbatim>\<open>try\<close> block: the value of \<^verbatim>\<open>page\<close> at its end, or what it throws.\<close>

definition wiki_get_page_try_D :: "env \<Rightarrow> json \<Rightarrow> gql_call list \<Rightarrow> (thrown + json) \<times> gql_call list" where
  "wiki_get_page_try_D env args log =
     (if truthy (get_prop args ''id'') then
        (case request env GET_PAGE_BY_ID_QUERY (JObj [(''id'', get_prop args ''id'')]) log of
           (Inl e, log1) \<Rightarrow> (Inl e, log1)
         | (Inr data, log1) \<Rightarrow>
             (case prop_strict env data ''pages'' of
                Inl e \<Rightarrow> (Inl e, log1)
              | Inr pgs \<Rightarrow> (prop_strict env pgs ''single'', log1)))
      else if truthy (get_prop args ''path'') then
        (case path_string env (get_prop args ''path'') of
           Inl e \<Rightarrow> (Inl e, log)
         | Inr p \<Rightarrow>
             (case request env GET_PAGE_BY_PATH_QUERY (JObj [(''path'', JStr (normalizePath_D p))]) log of
                (Inl e, log1) \<Rightarrow> (Inl e, log1)
              | (Inr data, log1) \<Rightarrow>
                  (case prop_strict env data ''pages'' of
                     Inl e \<Rightarrow> (Inl e, log1)
                   | Inr pgs \<Rightarrow> (prop_strict env pgs ''singleByPath'', log1))))
      else (Inl (new_Error env ''Either id or path must be provided''), log))"

text \<open>\<^verbatim>\<open>args.id ? `ID: ${args.id}` : `path: ${args.path}`\<close>\<close>

definition lookup_key_text :: "json \<Rightarrow> string" where
  "lookup_key_text args =
     (if truthy (get_prop args ''id'') then ''ID: '' @ js_toString (get_prop args ''id'')
      else ''path: '' @ js_toString (get_prop args ''path''))"

definition wiki_get_page_D :: "env \<Rightarrow> json \<Rightarrow> gql_call list \<Rightarrow> (thrown + ToolCallResult) \<times> gql_call list" where
  "wiki_get_page_D env args log =
     (if \<not> isGetPageArgs args
      then (Inl (new_Error env ''Invalid arguments for wiki_get_page''), log)
      else
        (case wiki_get_page_try_D env args log of
           (Inl error, log1) \<Rightarrow>
             (Inr (text_result (''Error fetching page: '' @ error_message error) True), log1)
         | (Inr page, log1) \<Rightarrow>
             if \<not> truthy page
             then (Inr (text_result (''Page not found for '' @ lookup_key_text args) True), log1)
             else (Inr (text_result (''# '' @ js_toString (get_prop page ''title'') @ NL @ NL
                                      @ js_toString (get_prop page ''content'')) False), log1)))"

subsection \<open>wiki_create_page (lines 401-463)\<close>

text \<open>The variables of the creation mutation, for a given path.\<close>

definition create_params :: "json \<Rightarrow> string \<Rightarrow> json" where
  "create_params args path =
     JObj [(''path'', JStr path),
           (''title'', get_prop args ''title''),
           (''content'', get_prop args ''content''),
           (''editor'', js_or (get_prop args ''editor'') (JStr ''markdown'')),
           (''isPublished'', if get_prop args ''isPublished'' \<noteq> JUndefined
                              then get_prop args ''isPublished'' else JBool True),
           (''description'', JStr [])]"

text \<open>
  \<^verbatim>\<open>Page ... successfully:\nTitle: ${result.page.title}\nID: ${result.page.id}\nPath: ${result.page.path}\<close>
\<close>

definition page_summary :: "json \<Rightarrow> string" where
  "page_summary page =
     ''Title: '' @ js_toString (get_prop page ''title'') @ NL
     @ ''ID: '' @ js_toString (get_prop page ''id'') @ NL
     @ ''Path: '' @ js_toString (get_prop page ''path'')"

text \<open>\<^verbatim>\<open>${result.responseResult.message || 'Unknown error'}\<close>\<close>

definition failure_message :: "json \<Rightarrow> string" where
  "failure_message responseResult =
     js_toString (js_or (get_prop responseResult ''message'') (JStr ''Unknown error''))"

text \<open>Lines 421-452: the result for the data of the creation mutation.\<close>

definition create_result_D :: "env \<Rightarrow> json \<Rightarrow> ToolCallResult" where
  "create_result_D env data =
     (let unexpected = text_result
            (''Page may have been created, but the response format was unexpected: ''
             @ JSON_stringify_flat env data) False
      in
      if truthy (guarded data ''pages'' ''create'') then
        (let result = get_prop (get_prop data ''pages'') ''create'' in
         if truthy (get_prop result ''responseResult'')
            \<and> \<not> truthy (get_prop (get_prop result ''responseResult'') ''succeeded'')
         then text_result (''Failed to create page: ''
                @ failure_message (get_prop result ''responseResult'')) True
         else if truthy (get_prop result ''page'')
         then text_result (''Page created successfully:'' @ NL
                @ page_summary (get_prop result ''page'')) False
         else unexpected)
      else unexpected)"

definition wiki_create_page_try_D :: "env \<Rightarrow> json \<Rightarrow> gql_call list \<Rightarrow> (thrown + ToolCallResult) \<times> gql_call list" where
  "wiki_create_page_try_D env args log =
     (case path_string env (get_prop args ''path'') of
        Inl e \<Rightarrow> (Inl e, log)
      | Inr p \<Rightarrow>
          (case request env CREATE_PAGE_MUTATION (create_params args (normalizePath_D p)) log of
             (Inl e, log1) \<Rightarrow> (Inl e, log1)
           | (Inr data, log1) \<Rightarrow>
               (Inr (create_result_D env data), log1)))"

definition wiki_create_page_D :: "env \<Rightarrow> json \<Rightarrow> gql_call list \<Rightarrow> (thrown + ToolCallResult) \<times> gql_call list" where
  "wiki_create_page_D env args log =
     (if \<not> isCreatePageArgs args
      then (Inl (new_Error env ''Invalid arguments for wiki_create_page''), log)
      else
        (case wiki_create_page_try_D env args log of
           (Inl error, log1) \<Rightarrow>
             (Inr (text_result (''Error creating page: '' @ error_message error) True), log1)
         | (Inr r, log1) \<Rightarrow> (Inr r, log1)))"

subsection \<open>wiki_update_page (lines 465-552)\<close>

text \<open>The variables of the update mutation, for a given id.\<close>

definition update_params :: "json \<Rightarrow> json \<Rightarrow> json" where
  "update_params args pageId =
     JObj [(''id'', pageId),
           (''title'', get_prop args ''title''),
           (''content'', get_prop args ''content''),
           (''editor'', get_prop args ''editor''),
           (''isPublished'', get_prop args ''isPublished''),
           (''description'', JUndefined)]"

text \<open>
  The first half of the \<^verbatim>\<open>try\<close> block (lines 471-496): the page id to update (\<open>Inr (Inr id)\<close>),
  or the result the handler returns at once (\<open>Inr (Inl result)\<close>), or what is thrown.
\<close>

definition resolve_pageId_D :: "env \<Rightarrow> json \<Rightarrow> gql_call list \<Rightarrow> (thrown + ToolCallResult + json) \<times> gql_call list" where
  "resolve_pageId_D env args log =
     (if \<not> truthy (get_prop args ''id'') \<and> truthy (get_prop args ''path'') then
        (case path_string env (get_prop args ''path'') of
           Inl e \<Rightarrow> (Inl e, log)
         | Inr p \<Rightarrow>
             (case request env GET_PAGE_BY_PATH_QUERY (JObj [(''path'', JStr (normalizePath_D p))]) log of
                (Inl e, log1) \<Rightarrow> (Inl e, log1)
              | (Inr data, log1) \<Rightarrow>
                  if truthy (guarded data ''pages'' ''singleByPath'')
                  then (let page = get_prop (get_prop data ''pages'') ''singleByPath'';
                            pageId = get_prop page ''id''
                        in if \<not> truthy pageId
                           then (Inl (new_Error env ''Could not determine page ID''), log1)
                           else (Inr (Inr pageId), log1))
                  else (Inr (Inl (text_result (''Page not found for path: '' @ normalizePath_D p) True)), log1)))
      else if \<not> truthy (get_prop args ''id'')
      then (Inl (new_Error env ''Could not determine page ID''), log)
      else (Inr (Inr (get_prop args ''id'')), log))"

text \<open>The second half (lines 510-541): the result for the data of the update mutation.\<close>

definition update_result_D :: "env \<Rightarrow> json \<Rightarrow> ToolCallResult" where
  "update_result_D env data =
     (let unexpected = text_result
            (''Page was updated successfully, but the response format was unexpected: ''
             @ JSON_stringify_flat env data) False
      in
      if truthy (guarded data ''pages'' ''update'') then
        (let result = get_prop (get_prop data ''pages'') ''update'' in
         if truthy (get_prop result ''responseResult'')
            \<and> \<not> truthy (get_prop (get_prop result ''responseResult'') ''succeeded'')
         then text_result (''Failed to update page: ''
                @ failure_message (get_prop result ''responseResult'')) True
         else if truthy (get_prop result ''page'')
         then text_result (''Page updated successfully:'' @ NL
                @ page_summary (get_prop result ''page'')) False
         else unexpected)
      else unexpected)"

definition wiki_update_page_try_D :: "env \<Rightarrow> json \<Rightarrow> gql_call list \<Rightarrow> (thrown + ToolCallResult) \<times> gql_call list" where
  "wiki_update_page_try_D env args log =
     (case resolve_pageId_D env args log of
        (Inl e, log1) \<Rightarrow> (Inl e, log1)
      | (Inr (Inl r), log1) \<Rightarrow> (Inr r, log1)
      | (Inr (Inr pageId), log1) \<Rightarrow>
          (case request env UPDATE_PAGE_MUTATION (update_params args pageId) log1 of
             (Inl e, log2) \<Rightarrow> (Inl e, log2)
           | (Inr data, log2) \<Rightarrow> (Inr (update_result_D env data), log2)))"

definition wiki_update_page_D :: "env \<Rightarrow> json \<Rightarrow> gql_call list \<Rightarrow> (thrown + ToolCallResult) \<times> gql_call list" where
  "wiki_update_page_D env args log =
     (if \<not> isUpdatePageArgs args
      then (Inl (new_Error env ''Invalid arguments for wiki_update_page''), log)
      else
        (case wiki_update_page_try_D env args log of
           (Inl error, log1) \<Rightarrow>
             (Inr (text_result (''Error updating page: '' @ error_message error) True), log1)
         | (Inr r, log1) \<Rightarrow> (Inr r, log1)))"

subsection \<open>The CallTool handler (lines 312-569)\<close>

text \<open>The body of the outer \<^verbatim>\<open>try\<close>: a result, or what reaches the catch-all.\<close>

definition callTool_try_D :: "env \<Rightarrow> string \<Rightarrow> json \<Rightarrow> (thrown + ToolCallResult) \<times> gql_call list" where
  "callTool_try_D env name args =
     (if \<not> truthy args then (Inl (new_Error env ''No arguments provided''), [])
      else if name = ''wiki_list_pages'' then wiki_list_pages env args []
      else if name = ''wiki_get_page'' then wiki_get_page_D env args []
      else if name = ''wiki_create_page'' then wiki_create_page_D env args []
      else if name = ''wiki_update_page'' then wiki_update_page_D env args []
      else (Inr (text_result (''Unknown tool: '' @ name) True), []))"

text \<open>
  The handler: the result it resolves with, and the GraphQL calls it made. The catch-all
  (lines 558-568) turns what the body throws into a result.
\<close>

definition callTool_D :: "env \<Rightarrow> string \<Rightarrow> json \<Rightarrow> ToolCallResult \<times> gql_call list" where
  "callTool_D env name args =
     (case callTool_try_D env name args of
        (Inl error, log) \<Rightarrow> (text_result (''Error: '' @ error_message error) True, log)
      | (Inr r, log) \<Rightarrow> (r, log))"

section \<open>Revision A: \<^verbatim>\<open>src/index.ts\<close> lines 1-763\<close>

subsection \<open>Debug text (lines 12-18)\<close>

text \<open>The string \<^verbatim>\<open>debugLog\<close> returns; revisions B and C define the same function.\<close>

definition debugLog :: "env \<Rightarrow> string \<Rightarrow> json \<Rightarrow> string" where
  "debugLog env title data =
     NL @ ''===== DEBUG: '' @ title @ '' ====='' @ NL
     @ JSON_stringify env data @ NL
     @ ''===== END DEBUG: '' @ title @ '' ====='' @ NL"

text \<open>
  The data logged by the \<^verbatim>\<open>catch\<close> clause of a handler:
  \<^verbatim>\<open>{ message: ..., stack: ..., name: ... }\<close>, each field by \<^verbatim>\<open>error instanceof Error\<close>.
\<close>

fun error_debug_data :: "thrown \<Rightarrow> json" where
  "error_debug_data (JsError name msg stack) =
     JObj [(''message'', JStr msg), (''stack'', JStr stack), (''name'', JStr name)]"
| "error_debug_data (JsValue v) =
     JObj [(''message'', JStr (js_toString v)),
           (''stack'', JStr ''No stack trace available''),
           (''name'', JStr ''Unknown error type'')]"

text \<open>\<^verbatim>\<open>error instanceof Error ? error.stack : "No stack trace available"\<close>\<close>

fun error_stack_text :: "thrown \<Rightarrow> string" where
  "error_stack_text (JsError name msg stack) = stack"
| "error_stack_text (JsValue v) = ''No stack trace available''"

text \<open>
  The result of the \<^verbatim>\<open>catch\<close> clause of a handler, for the words that open its text
  (\<^verbatim>\<open>Error fetching page\<close>, \<^verbatim>\<open>Error creating page\<close>, \<^verbatim>\<open>Error updating page\<close>) and the title
  of its debug block.
\<close>

definition catch_result :: "env \<Rightarrow> string \<Rightarrow> string \<Rightarrow> thrown \<Rightarrow> ToolCallResult" where
  "catch_result env opening title error =
     text_result (opening @ '': '' @ error_message error @ NL @ NL
                  @ debugLog env title (error_debug_data error)) True"

subsection \<open>Path variations (lines 222-251)\<close>

definition ascii_letter :: "char \<Rightarrow> bool" where
  "ascii_letter c = (c \<in> set ''abcdefghijklmnopqrstuvwxyzABCDEFGHIJKLMNOPQRSTUVWXYZ'')"

text \<open>\<^verbatim>\<open>normalizedPath.match(/^[a-z]{2}\//i)\<close> as a truth value.\<close>

fun hasLangPrefix :: "string \<Rightarrow> bool" where
  "hasLangPrefix (a # b # c # rest) = (ascii_letter a \<and> ascii_letter b \<and> c = CHR ''/'')"
| "hasLangPrefix s = False"

definition generatePathVariations :: "string \<Rightarrow> string list" where
  "generatePathVariations path =
     (let originalPath = path;
          normalizedPath = normalizePath originalPath;
          hasLang = hasLangPrefix normalizedPath;
          v1 = (if \<not> hasLang
                then [''ja/'' @ normalizedPath, ''/ja/'' @ normalizedPath]
                else [normalizedPath]);
          v2 = (if normalizedPath \<notin> set v1 then v1 @ [normalizedPath] else v1);
          v3 = (if \<not> startsWith_slash originalPath \<and> (''/'' @ originalPath) \<notin> set v2
                then v2 @ [''/'' @ originalPath] else v2);
          v4 = (if \<not> hasLang
                then v3 @ [''en/'' @ normalizedPath, ''/en/'' @ normalizedPath]
                else v3)
      in v4)"

text \<open>\<^verbatim>\<open>{ variations: pathVariations }\<close> and the like: an array of strings as a value.\<close>

definition str_array :: "string list \<Rightarrow> json" where
  "str_array xs = JArr (map JStr xs)"

subsection \<open>wiki_get_page (lines 390-488)\<close>

text \<open>
  The loop of lines 419-444 over the variations still to try, \<open>i\<close> counting the attempts
  made: the page found (or \<^verbatim>\<open>undefined\<close>), the debug text and the log. A rejected request
  is caught inside the loop, which goes on.
\<close>

fun get_page_loop_A :: "env \<Rightarrow> string list \<Rightarrow> nat \<Rightarrow> string \<Rightarrow> gql_call list \<Rightarrow> json \<times> string \<times> gql_call list" where
  "get_page_loop_A env [] i debugInfo log = (JUndefined, debugInfo, log)"
| "get_page_loop_A env (currentPath # rest) i debugInfo log =
     (let attempt = show_nat (i + 1);
          d1 = debugInfo @ debugLog env (''GET PAGE BY PATH - ATTEMPT '' @ attempt)
                             (JObj [(''path'', JStr currentPath)])
      in case request env GET_PAGE_BY_PATH_QUERY (JObj [(''path'', JStr currentPath)]) log of
           (Inl pathError, log1) \<Rightarrow>
             get_page_loop_A env rest (i + 1)
               (d1 @ debugLog env (''GET PAGE BY PATH ERROR - ATTEMPT '' @ attempt)
                       (JObj [(''path'', JStr currentPath),
                              (''error'', JStr (error_message pathError))]))
               log1
         | (Inr data, log1) \<Rightarrow>
             (let d2 = d1 @ debugLog env (''GET PAGE BY PATH RESPONSE - ATTEMPT '' @ attempt) data in
              if truthy (guarded data ''pages'' ''singleByPath'')
              then (let page = get_prop (get_prop data ''pages'') ''singleByPath'' in
                    (page,
                     d2 @ debugLog env ''PAGE FOUND BY PATH''
                            (JObj [(''path'', JStr currentPath), (''title'', get_prop page ''title'')]),
                     log1))
              else get_page_loop_A env rest (i + 1)
                     (d2 @ debugLog env (''PAGE NOT FOUND BY PATH - ATTEMPT '' @ attempt)
                             (JObj [(''path'', JStr currentPath), (''response'', data)]))
                     log1))"

text \<open>
  The branch taken when \<^verbatim>\<open>args.id\<close> is truthy (lines 398-411; the same text in revision B,
  lines 1127-1140): \<^verbatim>\<open>page\<close> and \<^verbatim>\<open>debugInfo\<close> at its end, or what the request throws.
\<close>

definition get_page_by_id :: "env \<Rightarrow> json \<Rightarrow> gql_call list \<Rightarrow> (thrown + json \<times> string) \<times> gql_call list" where
  "get_page_by_id env args log =
     (let d1 = debugLog env ''GET PAGE BY ID'' (JObj [(''id'', get_prop args ''id'')])
               @ debugLog env ''GET PAGE BY ID QUERY'' (JStr (query_text env GET_PAGE_BY_ID_QUERY))
      in case request env GET_PAGE_BY_ID_QUERY (JObj [(''id'', get_prop args ''id'')]) log of
           (Inl e, log1) \<Rightarrow> (Inl e, log1)
         | (Inr data, log1) \<Rightarrow>
             (let d2 = d1 @ debugLog env ''GET PAGE BY ID RESPONSE'' data in
              if truthy (guarded data ''pages'' ''single'')
              then (let page = get_prop (get_prop data ''pages'') ''single'' in
                    (Inr (page,
                          d2 @ debugLog env ''PAGE FOUND BY ID''
                                 (JObj [(''id'', get_prop args ''id''),
                                        (''title'', get_prop page ''title'')])),
                     log1))
              else (Inr (JUndefined,
                         d2 @ debugLog env ''PAGE NOT FOUND BY ID''
                                (JObj [(''id'', get_prop args ''id''), (''response'', data)])),
                    log1)))"

text \<open>The inner \<^verbatim>\<open>try\<close> block (lines 397-454): \<^verbatim>\<open>page\<close> and \<^verbatim>\<open>debugInfo\<close> at its end.\<close>

definition wiki_get_page_try_A :: "env \<Rightarrow> json \<Rightarrow> gql_call list \<Rightarrow> (thrown + json \<times> string) \<times> gql_call list" where
  "wiki_get_page_try_A env args log =
     (if truthy (get_prop args ''id'') then get_page_by_id env args log
      else if truthy (get_prop args ''path'') then
        (case path_string env (get_prop args ''path'') of
           Inl e \<Rightarrow> (Inl e, log)
         | Inr originalPath \<Rightarrow>
             (let pathVariations = generatePathVariations originalPath;
                  d1 = debugLog env ''GET PAGE BY PATH - PATH VARIATIONS''
                         (JObj [(''variations'', str_array pathVariations)])
                       @ debugLog env ''GET PAGE BY PATH QUERY''
                           (JStr (query_text env GET_PAGE_BY_PATH_QUERY))
              in case get_page_loop_A env pathVariations 0 d1 log of
                   (page, d2, log1) \<Rightarrow>
                     if \<not> truthy page
                     then (Inr (page,
                                d2 @ debugLog env ''GET PAGE BY PATH - ALL ATTEMPTS FAILED''
                                       (JObj [(''originalPath'', JStr originalPath),
                                              (''triedVariations'', str_array pathVariations)])),
                           log1)
                     else (Inr (page, d2), log1)))
      else (Inl (new_Error env ''Either id or path must be provided''), log))"

text \<open>Lines 471-487 (the same text in revision B, lines 1175-1191): the result after the \<^verbatim>\<open>try\<close>.\<close>

definition get_page_result :: "json \<Rightarrow> json \<Rightarrow> string \<Rightarrow> ToolCallResult" where
  "get_page_result args page debugInfo =
     (if \<not> truthy page
      then text_result (''Page not found for '' @ lookup_key_text args @ NL @ NL @ debugInfo) True
      else text_result (''# '' @ js_toString (get_prop page ''title'') @ NL @ NL
                        @ js_toString (get_prop page ''content'') @ NL @ NL @ debugInfo) False)"

definition wiki_get_page_A :: "env \<Rightarrow> json \<Rightarrow> gql_call list \<Rightarrow> (thrown + ToolCallResult) \<times> gql_call list" where
  "wiki_get_page_A env args log =
     (if \<not> isGetPageArgs args
      then (Inl (new_Error env ''Invalid arguments for wiki_get_page''), log)
      else
        (case wiki_get_page_try_A env args log of
           (Inl error, log1) \<Rightarrow>
             (Inr (catch_result env ''Error fetching page'' ''GET PAGE ERROR'' error), log1)
         | (Inr (page, debugInfo), log1) \<Rightarrow> (Inr (get_page_result args page debugInfo), log1)))"

subsection \<open>wiki_create_page (lines 490-585)\<close>

text \<open>\<^verbatim>\<open>{ ...baseParams, path: currentPath }\<close>\<close>

definition create_params_A :: "json \<Rightarrow> string \<Rightarrow> json" where
  "create_params_A args currentPath =
     JObj [(''title'', get_prop args ''title''),
           (''content'', get_prop args ''content''),
           (''editor'', js_or (get_prop args ''editor'') (JStr ''markdown'')),
           (''isPublished'', if get_prop args ''isPublished'' \<noteq> JUndefined
                              then get_prop args ''isPublished'' else JBool True),
           (''description'', JStr []),
           (''path'', JStr currentPath)]"

text \<open>
  The condition under which an attempt returns the success result (line 528, inside the
  guard of line 525).
\<close>

definition create_succeeded_A :: "json \<Rightarrow> bool" where
  "create_succeeded_A data =
     (truthy (guarded data ''pages'' ''create'') \<and>
      (let result = get_prop (get_prop data ''pages'') ''create'' in
       truthy (get_prop result ''responseResult'')
       \<and> truthy (get_prop (get_prop result ''responseResult'') ''succeeded'')
       \<and> truthy (get_prop result ''page'')))"

text \<open>
  The loop of lines 511-547: the result returned from inside the loop, if any, with the
  debug text and the log.
\<close>

fun create_page_loop_A :: "env \<Rightarrow> json \<Rightarrow> string list \<Rightarrow> nat \<Rightarrow> string \<Rightarrow> gql_call list \<Rightarrow> ToolCallResult option \<times> string \<times> gql_call list" where
  "create_page_loop_A env args [] i debugInfo log = (None, debugInfo, log)"
| "create_page_loop_A env args (currentPath # rest) i debugInfo log =
     (let attempt = show_nat (i + 1);
          requestParams = create_params_A args currentPath;
          d1 = debugInfo @ debugLog env (''CREATE PAGE REQUEST PARAMETERS - ATTEMPT '' @ attempt)
                             requestParams
      in case request env CREATE_PAGE_MUTATION requestParams log of
           (Inl attemptError, log1) \<Rightarrow>
             create_page_loop_A env args rest (i + 1)
               (d1 @ debugLog env (''CREATE PAGE ERROR - ATTEMPT '' @ attempt)
                       (JObj [(''path'', JStr currentPath),
                              (''error'', JStr (error_message attemptError)),
                              (''stack'', JStr (error_stack_text attemptError))]))
               log1
         | (Inr data, log1) \<Rightarrow>
             (let d2 = d1 @ debugLog env (''CREATE PAGE RESPONSE - ATTEMPT '' @ attempt) data in
              if truthy (guarded data ''pages'' ''create'') then
                (let result = get_prop (get_prop data ''pages'') ''create'' in
                 if create_succeeded_A data
                 then (Some (text_result (''Page created successfully:'' @ NL
                               @ page_summary (get_prop result ''page'') @ NL @ NL @ d2) False),
                       d2, log1)
                 else if truthy (get_prop result ''responseResult'')
                 then create_page_loop_A env args rest (i + 1)
                        (d2 @ debugLog env (''CREATE PAGE FAILED - ATTEMPT '' @ attempt)
                                (get_prop result ''responseResult''))
                        log1
                 else create_page_loop_A env args rest (i + 1) d2 log1)
              else create_page_loop_A env args rest (i + 1) d2 log1))"

text \<open>
  The text of the result after the loop (line 558). The second \<^verbatim>\<open>return\<close> (lines 563-569)
  is never reached.
\<close>

definition create_exhausted_text_A :: string where
  "create_exhausted_text_A =
     ''Failed to create page after multiple attempts. Wiki.js may require specific language prefixes in paths (e.g., ''
     @ [CHR 0x22] @ ''/ja/home'' @ [CHR 0x22]
     @ ''). Please check the debug information for details.''"

definition wiki_create_page_try_A :: "env \<Rightarrow> json \<Rightarrow> gql_call list \<Rightarrow> (thrown + ToolCallResult) \<times> gql_call list" where
  "wiki_create_page_try_A env args log =
     (case path_string env (get_prop args ''path'') of
        Inl e \<Rightarrow> (Inl e, log)
      | Inr originalPath \<Rightarrow>
          (let pathVariations = generatePathVariations originalPath;
               d1 = debugLog env ''CREATE PAGE - PATH VARIATIONS''
                      (JObj [(''variations'', str_array pathVariations)])
                    @ debugLog env ''CREATE PAGE GRAPHQL MUTATION''
                        (JStr (query_text env CREATE_PAGE_MUTATION))
           in case create_page_loop_A env args pathVariations 0 d1 log of
                (Some r, d2, log1) \<Rightarrow> (Inr r, log1)
              | (None, d2, log1) \<Rightarrow>
                  (let d3 = d2 @ debugLog env ''API CONFIGURATION''
                                   (JObj [(''url'', JStr (WIKI_API_URL env @ ''/graphql'')),
                                          (''authHeader'', JStr (''Bearer '' @ take 5 (WIKI_API_TOKEN env) @ ''...'')),
                                          (''pathVariations'', str_array pathVariations)])
                   in (Inr (text_result (create_exhausted_text_A @ NL @ NL @ d3) True), log1))))"

definition wiki_create_page_A :: "env \<Rightarrow> json \<Rightarrow> gql_call list \<Rightarrow> (thrown + ToolCallResult) \<times> gql_call list" where
  "wiki_create_page_A env args log =
     (if \<not> isCreatePageArgs args
      then (Inl (new_Error env ''Invalid arguments for wiki_create_page''), log)
      else
        (case wiki_create_page_try_A env args log of
           (Inl error, log1) \<Rightarrow>
             (Inr (catch_result env ''Error creating page'' ''CREATE PAGE ERROR'' error), log1)
         | (Inr r, log1) \<Rightarrow> (Inr r, log1)))"

subsection \<open>wiki_update_page (lines 587-735)\<close>

text \<open>
  The loop of lines 603-629: \<^verbatim>\<open>page\<close> (\<^verbatim>\<open>null\<close> when no attempt found one), the debug text
  and the log.
\<close>

fun update_lookup_loop_A :: "env \<Rightarrow> string list \<Rightarrow> nat \<Rightarrow> string \<Rightarrow> gql_call list \<Rightarrow> json \<times> string \<times> gql_call list" where
  "update_lookup_loop_A env [] i debugInfo log = (JNull, debugInfo, log)"
| "update_lookup_loop_A env (currentPath # rest) i debugInfo log =
     (let attempt = show_nat (i + 1);
          d1 = debugInfo @ debugLog env (''UPDATE PAGE - FETCHING BY PATH - ATTEMPT '' @ attempt)
                             (JObj [(''path'', JStr currentPath)])
      in case request env GET_PAGE_BY_PATH_QUERY (JObj [(''path'', JStr currentPath)]) log of
           (Inl pathError, log1) \<Rightarrow>
             update_lookup_loop_A env rest (i + 1)
               (d1 @ debugLog env (''GET PAGE BY PATH ERROR - ATTEMPT '' @ attempt)
                       (JObj [(''path'', JStr currentPath),
                              (''error'', JStr (error_message pathError))]))
               log1
         | (Inr data, log1) \<Rightarrow>
             (let d2 = d1 @ debugLog env (''GET PAGE BY PATH RESPONSE - ATTEMPT '' @ attempt) data in
              if truthy (guarded data ''pages'' ''singleByPath'')
              then (let page = get_prop (get_prop data ''pages'') ''singleByPath'' in
                    (page,
                     d2 @ debugLog env ''PAGE FOUND BY PATH''
                            (JObj [(''id'', get_prop page ''id''), (''path'', JStr currentPath)]),
                     log1))
              else update_lookup_loop_A env rest (i + 1)
                     (d2 @ debugLog env (''PAGE NOT FOUND BY PATH - ATTEMPT '' @ attempt)
                             (JObj [(''path'', JStr currentPath), (''response'', data)]))
                     log1))"

text \<open>
  Lines 593-648: the page id to update with the debug text so far (\<open>Inr (Inr (id, text))\<close>),
  or the result the handler returns at once (\<open>Inr (Inl result)\<close>), or what is thrown.
\<close>

definition resolve_pageId_A :: "env \<Rightarrow> json \<Rightarrow> gql_call list \<Rightarrow> (thrown + ToolCallResult + json \<times> string) \<times> gql_call list" where
  "resolve_pageId_A env args log =
     (if \<not> truthy (get_prop args ''id'') \<and> truthy (get_prop args ''path'') then
        (case path_string env (get_prop args ''path'') of
           Inl e \<Rightarrow> (Inl e, log)
         | Inr originalPath \<Rightarrow>
             (let pathVariations = generatePathVariations originalPath;
                  d1 = debugLog env ''UPDATE PAGE - PATH VARIATIONS''
                         (JObj [(''variations'', str_array pathVariations)])
                       @ debugLog env ''GET PAGE BY PATH QUERY''
                           (JStr (query_text env GET_PAGE_BY_PATH_QUERY))
              in case update_lookup_loop_A env pathVariations 0 d1 log of
                   (page, d2, log1) \<Rightarrow>
                     if \<not> truthy page
                     then (let d3 = d2 @ debugLog env ''UPDATE PAGE - ALL PATH ATTEMPTS FAILED''
                                           (JObj [(''originalPath'', JStr originalPath),
                                                  (''triedVariations'', str_array pathVariations)])
                           in (Inr (Inl (text_result (''Page not found for path: '' @ originalPath
                                                       @ NL @ NL @ d3) True)), log1))
                     else (let pageId = get_prop page ''id'' in
                           if \<not> truthy pageId
                           then (Inl (new_Error env ''Could not determine page ID''), log1)
                           else (Inr (Inr (pageId, d2)), log1))))
      else if \<not> truthy (get_prop args ''id'')
      then (Inl (new_Error env ''Could not determine page ID''), log)
      else (Inr (Inr (get_prop args ''id'', [])), log))"

text \<open>The text the update handler looks for in the message of a failed mutation (line 693).\<close>

definition map_of_undefined :: string where
  "map_of_undefined = ''Cannot read properties of undefined (reading 'map')''"

text \<open>
  \<^verbatim>\<open>message.includes(t)\<close> for a truthy \<^verbatim>\<open>message\<close>: the substring test on a string, the
  membership test on an array; no other value has \<^verbatim>\<open>includes\<close>, and the call throws.
\<close>

fun js_includes :: "env \<Rightarrow> json \<Rightarrow> string \<Rightarrow> thrown + bool" where
  "js_includes env (JStr s) t = Inr (str_includes s t)"
| "js_includes env (JArr xs) t = Inr (JStr t \<in> set xs)"
| "js_includes env v t =
     Inl (TypeError env ''result.responseResult.message.includes is not a function'')"

text \<open>
  Lines 670-719: the result for the data of the update mutation and the debug text. Revision
  C has the same text at lines 2063-2112.
\<close>

definition update_result_A :: "env \<Rightarrow> json \<Rightarrow> string \<Rightarrow> thrown + ToolCallResult" where
  "update_result_A env data debugInfo =
     (let unexpected = text_result
            (''Page was updated successfully, but the response format was unexpected.''
             @ NL @ NL @ debugInfo) False
      in
      if truthy (guarded data ''pages'' ''update'') then
        (let result = get_prop (get_prop data ''pages'') ''update'';
             responseResult = get_prop result ''responseResult''
         in
         if truthy responseResult then
           (if truthy (get_prop responseResult ''succeeded'') then
              (if truthy (get_prop result ''page'')
               then Inr (text_result (''Page updated successfully:'' @ NL
                           @ page_summary (get_prop result ''page'') @ NL @ NL @ debugInfo) False)
               else Inr (text_result
                           (''Page updated successfully, but no page details were returned.''
                            @ NL @ NL @ debugInfo) False))
            else
              (case (if truthy (get_prop responseResult ''message'')
                     then js_includes env (get_prop responseResult ''message'') map_of_undefined
                     else Inr False) of
                 Inl e \<Rightarrow> Inl e
               | Inr True \<Rightarrow>
                   Inr (text_result (''Page was likely updated successfully despite error: ''
                          @ js_toString (get_prop responseResult ''message'') @ NL
                          @ ''This is a known issue with the Wiki.js API.''
                          @ NL @ NL @ debugInfo) False)
               | Inr False \<Rightarrow>
                   Inr (text_result (''Failed to update page: '' @ failure_message responseResult
                          @ NL @ NL @ debugInfo) True)))
         else Inr unexpected)
      else Inr unexpected)"

text \<open>Lines 650-668: the mutation call and the debug text around it.\<close>

definition update_mutation_A :: "env \<Rightarrow> json \<Rightarrow> json \<Rightarrow> string \<Rightarrow> gql_call list \<Rightarrow> (thrown + ToolCallResult) \<times> gql_call list" where
  "update_mutation_A env args pageId debugInfo log =
     (let updateParams = update_params args pageId;
          d1 = debugInfo @ debugLog env ''UPDATE PAGE REQUEST PARAMETERS'' updateParams
               @ debugLog env ''UPDATE PAGE GRAPHQL MUTATION'' (JStr (query_text env UPDATE_PAGE_MUTATION))
      in case request env UPDATE_PAGE_MUTATION updateParams log of
           (Inl e, log1) \<Rightarrow> (Inl e, log1)
         | (Inr data, log1) \<Rightarrow>
             (let d2 = d1 @ debugLog env ''UPDATE PAGE RESPONSE'' data
                       @ debugLog env ''API CONFIGURATION''
                           (JObj [(''url'', JStr (WIKI_API_URL env @ ''/graphql'')),
                                  (''authHeader'', JStr (''Bearer '' @ take 5 (WIKI_API_TOKEN env) @ ''...''))])
              in (update_result_A env data d2, log1)))"

definition wiki_update_page_try_A :: "env \<Rightarrow> json \<Rightarrow> gql_call list \<Rightarrow> (thrown + ToolCallResult) \<times> gql_call list" where
  "wiki_update_page_try_A env args log =
     (case resolve_pageId_A env args log of
        (Inl e, log1) \<Rightarrow> (Inl e, log1)
      | (Inr (Inl r), log1) \<Rightarrow> (Inr r, log1)
      | (Inr (Inr (pageId, debugInfo)), log1) \<Rightarrow> update_mutation_A env args pageId debugInfo log1)"

definition wiki_update_page_A :: "env \<Rightarrow> json \<Rightarrow> gql_call list \<Rightarrow> (thrown + ToolCallResult) \<times> gql_call list" where
  "wiki_update_page_A env args log =
     (if \<not> isUpdatePageArgs args
      then (Inl (new_Error env ''Invalid arguments for wiki_update_page''), log)
      else
        (case wiki_update_page_try_A env args log of
           (Inl error, log1) \<Rightarrow>
             (Inr (catch_result env ''Error updating page'' ''UPDATE PAGE ERROR'' error), log1)
         | (Inr r, log1) \<Rightarrow> (Inr r, log1)))"

subsection \<open>The CallTool handler (lines 354-752)\<close>

definition callTool_try_A :: "env \<Rightarrow> string \<Rightarrow> json \<Rightarrow> (thrown + ToolCallResult) \<times> gql_call list" where
  "callTool_try_A env name args =
     (if \<not> truthy args then (Inl (new_Error env ''No arguments provided''), [])
      else if name = ''wiki_list_pages'' then wiki_list_pages env args []
      else if name = ''wiki_get_page'' then wiki_get_page_A env args []
      else if name = ''wiki_create_page'' then wiki_create_page_A env args []
      else if name = ''wiki_update_page'' then wiki_update_page_A env args []
      else (Inr (text_result (''Unknown tool: '' @ name) True), []))"

text \<open>The catch-all of lines 741-751 turns what the body throws into a result.\<close>

definition callTool_A :: "env \<Rightarrow> string \<Rightarrow> json \<Rightarrow> ToolCallResult \<times> gql_call list" where
  "callTool_A env name args =
     (case callTool_try_A env name args of
        (Inl error, log) \<Rightarrow> (text_result (''Error: '' @ error_message error) True, log)
      | (Inr r, log) \<Rightarrow> (r, log))"

section \<open>Revision B: \<^verbatim>\<open>src/index.ts\<close> lines 764-1405\<close>

subsection \<open>wiki_get_page (lines 1119-1192)\<close>

definition wiki_get_page_try_B :: "env \<Rightarrow> json \<Rightarrow> gql_call list \<Rightarrow> (thrown + json \<times> string) \<times> gql_call list" where
  "wiki_get_page_try_B env args log =
     (if truthy (get_prop args ''id'') then get_page_by_id env args log
      else if truthy (get_prop args ''path'') then
        (case path_string env (get_prop args ''path'') of
           Inl e \<Rightarrow> (Inl e, log)
         | Inr p \<Rightarrow>
             (let normalizedPath = normalizePath p;
                  d1 = debugLog env ''GET PAGE BY PATH'' (JObj [(''path'', JStr normalizedPath)])
                       @ debugLog env ''GET PAGE BY PATH QUERY''
                           (JStr (query_text env GET_PAGE_BY_PATH_QUERY))
              in case request env GET_PAGE_BY_PATH_QUERY (JObj [(''path'', JStr normalizedPath)]) log of
                   (Inl e, log1) \<Rightarrow> (Inl e, log1)
                 | (Inr data, log1) \<Rightarrow>
                     (let d2 = d1 @ debugLog env ''GET PAGE BY PATH RESPONSE'' data in
                      if truthy (guarded data ''pages'' ''singleByPath'')
                      then (let page = get_prop (get_prop data ''pages'') ''singleByPath'' in
                            (Inr (page,
                                  d2 @ debugLog env ''PAGE FOUND BY PATH''
                                         (JObj [(''path'', JStr normalizedPath),
                                                (''title'', get_prop page ''title'')])),
                             log1))
                      else (Inr (JUndefined,
                                 d2 @ debugLog env ''PAGE NOT FOUND BY PATH''
                                        (JObj [(''path'', JStr normalizedPath), (''response'', data)])),
                            log1))))
      else (Inl (new_Error env ''Either id or path must be provided''), log))"

definition wiki_get_page_B :: "env \<Rightarrow> json \<Rightarrow> gql_call list \<Rightarrow> (thrown + ToolCallResult) \<times> gql_call list" where
  "wiki_get_page_B env args log =
     (if \<not> isGetPageArgs args
      then (Inl (new_Error env ''Invalid arguments for wiki_get_page''), log)
      else
        (case wiki_get_page_try_B env args log of
           (Inl error, log1) \<Rightarrow>
             (Inr (catch_result env ''Error fetching page'' ''GET PAGE ERROR'' error), log1)
         | (Inr (page, debugInfo), log1) \<Rightarrow> (Inr (get_page_result args page debugInfo), log1)))"

section \<open>Revision C: \<^verbatim>\<open>src/index.ts\<close> lines 1406-2156\<close>

subsection \<open>wiki_create_page (lines 1882-2004)\<close>

text \<open>
  One of the two attempts (lines 1905-1930 and 1941-1966, the same text but for the titles
  of the debug blocks): the success result if the attempt returns it, the debug text and the
  log. \<open>response_title\<close> is \<^verbatim>\<open>CREATE PAGE RESPONSE\<close> or \<^verbatim>\<open>CREATE PAGE RESPONSE (ATTEMPT 2)\<close>,
  \<open>attempt\<close> is \<^verbatim>\<open>(ATTEMPT 1)\<close> or \<^verbatim>\<open>(ATTEMPT 2)\<close>.
\<close>

definition create_attempt_C :: "env \<Rightarrow> json \<Rightarrow> string \<Rightarrow> string \<Rightarrow> string \<Rightarrow> gql_call list \<Rightarrow> ToolCallResult option \<times> string \<times> gql_call list" where
  "create_attempt_C env requestParams response_title attempt debugInfo log =
     (case request env CREATE_PAGE_MUTATION requestParams log of
        (Inl attemptError, log1) \<Rightarrow>
          (None,
           debugInfo @ debugLog env (''CREATE PAGE ERROR '' @ attempt)
                         (JObj [(''error'', JStr (error_message attemptError)),
                                (''stack'', JStr (error_stack_text attemptError))]),
           log1)
      | (Inr data, log1) \<Rightarrow>
          (let d1 = debugInfo @ debugLog env response_title data in
           if truthy (guarded data ''pages'' ''create'') then
             (let result = get_prop (get_prop data ''pages'') ''create'' in
              if truthy (get_prop result ''responseResult'')
                 \<and> \<not> truthy (get_prop (get_prop result ''responseResult'') ''succeeded'')
              then (None,
                    d1 @ debugLog env (''CREATE PAGE FAILED '' @ attempt) (get_prop result ''responseResult''),
                    log1)
              else if truthy (get_prop result ''page'')
              then (Some (text_result (''Page created successfully:'' @ NL
                            @ page_summary (get_prop result ''page'') @ NL @ NL @ d1) False),
                    d1, log1)
              else (None, d1, log1))
           else (None, d1, log1)))"

text \<open>
  The text of the result after the attempts (line 1977). The second \<^verbatim>\<open>return\<close> (lines
  1982-1988) is never reached.
\<close>

definition create_exhausted_text_C :: string where
  "create_exhausted_text_C =
     ''Failed to create page after multiple attempts. Please check the debug information for details.''"

definition wiki_create_page_try_C :: "env \<Rightarrow> json \<Rightarrow> gql_call list \<Rightarrow> (thrown + ToolCallResult) \<times> gql_call list" where
  "wiki_create_page_try_C env args log =
     (case path_string env (get_prop args ''path'') of
        Inl e \<Rightarrow> (Inl e, log)
      | Inr originalPath \<Rightarrow>
          (let normalizedPath = normalizePath originalPath;
               requestParams = create_params args normalizedPath;
               d0 = debugLog env ''CREATE PAGE REQUEST PARAMETERS (ATTEMPT 1)'' requestParams
                    @ debugLog env ''CREATE PAGE GRAPHQL MUTATION''
                        (JStr (query_text env CREATE_PAGE_MUTATION))
           in case create_attempt_C env requestParams ''CREATE PAGE RESPONSE'' ''(ATTEMPT 1)'' d0 log of
                (Some r, d1, log1) \<Rightarrow> (Inr r, log1)
              | (None, d1, log1) \<Rightarrow>
                  (case (if \<not> startsWith_slash originalPath
                         then (let pathWithSlash = ''/'' @ originalPath;
                                   requestParams2 = create_params args pathWithSlash;
                                   d2 = d1 @ debugLog env ''CREATE PAGE REQUEST PARAMETERS (ATTEMPT 2)''
                                                requestParams2
                               in create_attempt_C env requestParams2
                                    ''CREATE PAGE RESPONSE (ATTEMPT 2)'' ''(ATTEMPT 2)'' d2 log1)
                         else (None, d1, log1)) of
                     (Some r, d3, log2) \<Rightarrow> (Inr r, log2)
                   | (None, d3, log2) \<Rightarrow>
                       (let d4 = d3 @ debugLog env ''API CONFIGURATION''
                                        (JObj [(''url'', JStr (WIKI_API_URL env @ ''/graphql'')),
                                               (''authHeader'', JStr (''Bearer '' @ take 5 (WIKI_API_TOKEN env) @ ''...''))])
                        in (Inr (text_result (create_exhausted_text_C @ NL @ NL @ d4) True), log2)))))"

definition wiki_create_page_C :: "env \<Rightarrow> json \<Rightarrow> gql_call list \<Rightarrow> (thrown + ToolCallResult) \<times> gql_call list" where
  "wiki_create_page_C env args log =
     (if \<not> isCreatePageArgs args
      then (Inl (new_Error env ''Invalid arguments for wiki_create_page''), log)
      else
        (case wiki_create_page_try_C env args log of
           (Inl error, log1) \<Rightarrow>
             (Inr (catch_result env ''Error creating page'' ''CREATE PAGE ERROR'' error), log1)
         | (Inr r, log1) \<Rightarrow> (Inr r, log1)))"

subsection \<open>wiki_update_page (lines 2006-2128)\<close>

text \<open>
  Lines 2012-2041 (the same text in revision B, lines 1279-1308): one lookup by the
  normalized path, outside any inner \<^verbatim>\<open>try\<close>.
\<close>

definition resolve_pageId_C :: "env \<Rightarrow> json \<Rightarrow> gql_call list \<Rightarrow> (thrown + ToolCallResult + json \<times> string) \<times> gql_call list" where
  "resolve_pageId_C env args log =
     (if \<not> truthy (get_prop args ''id'') \<and> truthy (get_prop args ''path'') then
        (case path_string env (get_prop args ''path'') of
           Inl e \<Rightarrow> (Inl e, log)
         | Inr p \<Rightarrow>
             (let normalizedPath = normalizePath p;
                  d1 = debugLog env ''UPDATE PAGE - FETCHING BY PATH'' (JObj [(''path'', JStr normalizedPath)])
                       @ debugLog env ''GET PAGE BY PATH QUERY''
                           (JStr (query_text env GET_PAGE_BY_PATH_QUERY))
              in case request env GET_PAGE_BY_PATH_QUERY (JObj [(''path'', JStr normalizedPath)]) log of
                   (Inl e, log1) \<Rightarrow> (Inl e, log1)
                 | (Inr data, log1) \<Rightarrow>
                     (let d2 = d1 @ debugLog env ''GET PAGE BY PATH RESPONSE'' data in
                      if truthy (guarded data ''pages'' ''singleByPath'')
                      then (let page = get_prop (get_prop data ''pages'') ''singleByPath'';
                                pageId = get_prop page ''id'';
                                d3 = d2 @ debugLog env ''PAGE FOUND BY PATH''
                                            (JObj [(''id'', pageId), (''path'', JStr normalizedPath)])
                            in if \<not> truthy pageId
                               then (Inl (new_Error env ''Could not determine page ID''), log1)
                               else (Inr (Inr (pageId, d3)), log1))
                      else (let d3 = d2 @ debugLog env ''PAGE NOT FOUND BY PATH''
                                            (JObj [(''path'', JStr normalizedPath), (''response'', data)])
                            in (Inr (Inl (text_result (''Page not found for path: '' @ normalizedPath
                                                        @ NL @ NL @ d3) True)), log1)))))
      else if \<not> truthy (get_prop args ''id'')
      then (Inl (new_Error env ''Could not determine page ID''), log)
      else (Inr (Inr (get_prop args ''id'', [])), log))"

text \<open>
  The rest of the \<^verbatim>\<open>try\<close> block (lines 2043-2112) is the text of revision A's lines 650-719.
\<close>

definition wiki_update_page_try_C :: "env \<Rightarrow> json \<Rightarrow> gql_call list \<Rightarrow> (thrown + ToolCallResult) \<times> gql_call list" where
  "wiki_update_page_try_C env args log =
     (case resolve_pageId_C env args log of
        (Inl e, log1) \<Rightarrow> (Inl e, log1)
      | (Inr (Inl r), log1) \<Rightarrow> (Inr r, log1)
      | (Inr (Inr (pageId, debugInfo)), log1) \<Rightarrow> update_mutation_A env args pageId debugInfo log1)"

definition wiki_update_page_C :: "env \<Rightarrow> json \<Rightarrow> gql_call list \<Rightarrow> (thrown + ToolCallResult) \<times> gql_call list" where
  "wiki_update_page_C env args log =
     (if \<not> isUpdatePageArgs args
      then (Inl (new_Error env ''Invalid arguments for wiki_update_page''), log)
      else
        (case wiki_update_page_try_C env args log of
           (Inl error, log1) \<Rightarrow>
             (Inr (catch_result env ''Error updating page'' ''UPDATE PAGE ERROR'' error), log1)
         | (Inr r, log1) \<Rightarrow> (Inr r, log1)))"

section \<open>Vocabulary of the properties\<close>

text \<open>The calls of one kind in a log.\<close>

definition calls_of :: "query \<Rightarrow> gql_call list \<Rightarrow> gql_call list" where
  "calls_of q log = filter (\<lambda>c. fst c = q) log"

text \<open>A lookup by path, as every revision issues it.\<close>

definition lookup_call :: "string \<Rightarrow> gql_call" where
  "lookup_call p = (GET_PAGE_BY_PATH_QUERY, JObj [(''path'', JStr p)])"

text \<open>
  What a lookup by path answers when made after the calls of \<open>log\<close>: the value the handlers
  test for a page (\<^verbatim>\<open>undefined\<close> when the request is rejected), and whether it is a page.
\<close>

definition found_page :: "env \<Rightarrow> gql_call list \<Rightarrow> string \<Rightarrow> json" where
  "found_page env log p =
     (case graphql_request env log (lookup_call p) of
        Inl e \<Rightarrow> JUndefined
      | Inr data \<Rightarrow> guarded data ''pages'' ''singleByPath'')"

definition lookup_finds :: "env \<Rightarrow> gql_call list \<Rightarrow> string \<Rightarrow> bool" where
  "lookup_finds env log p = truthy (found_page env log p)"

text \<open>
  A creation attempt of revision A on a path, and whether the server accepts it when made
  after the calls of \<open>log\<close>.
\<close>

definition create_call_A :: "json \<Rightarrow> string \<Rightarrow> gql_call" where
  "create_call_A args p = (CREATE_PAGE_MUTATION, create_params_A args p)"

definition create_accepted_A :: "env \<Rightarrow> json \<Rightarrow> gql_call list \<Rightarrow> string \<Rightarrow> bool" where
  "create_accepted_A env args log p =
     (case graphql_request env log (create_call_A args p) of
        Inl e \<Rightarrow> False
      | Inr data \<Rightarrow> create_succeeded_A data)"

text \<open>
  A creation attempt of revision C on a path, and whether the attempt returns the success
  result when made after the calls of \<open>log\<close> (lines 1910-1923: the result does not signal
  failure and holds a page).
\<close>

definition create_call_C :: "json \<Rightarrow> string \<Rightarrow> gql_call" where
  "create_call_C args p = (CREATE_PAGE_MUTATION, create_params args p)"

definition create_accepted_C :: "env \<Rightarrow> json \<Rightarrow> gql_call list \<Rightarrow> string \<Rightarrow> bool" where
  "create_accepted_C env args log p =
     (case graphql_request env log (create_call_C args p) of
        Inl e \<Rightarrow> False
      | Inr data \<Rightarrow>
          truthy (guarded data ''pages'' ''create'') \<and>
          (let result = get_prop (get_prop data ''pages'') ''create'' in
           \<not> (truthy (get_prop result ''responseResult'')
              \<and> \<not> truthy (get_prop (get_prop result ''responseResult'') ''succeeded''))
           \<and> truthy (get_prop result ''page'')))"

text \<open>
  Trying candidates in order until one succeeds: the number of attempts made, and whether
  one succeeded. \<open>ok log v\<close> tells whether the attempt on \<open>v\<close> succeeds when made after
  the calls of \<open>log\<close>; \<open>call v\<close> is the call the attempt makes.
\<close>

fun attempts :: "(gql_call list \<Rightarrow> 'a \<Rightarrow> bool) \<Rightarrow> ('a \<Rightarrow> gql_call) \<Rightarrow> gql_call list \<Rightarrow> 'a list \<Rightarrow> nat" where
  "attempts ok call log [] = 0"
| "attempts ok call log (v # vs) =
     (if ok log v then 1 else Suc (attempts ok call (log @ [call v]) vs))"

fun succeeded :: "(gql_call list \<Rightarrow> 'a \<Rightarrow> bool) \<Rightarrow> ('a \<Rightarrow> gql_call) \<Rightarrow> gql_call list \<Rightarrow> 'a list \<Rightarrow> bool" where
  "succeeded ok call log [] = False"
| "succeeded ok call log (v # vs) = (ok log v \<or> succeeded ok call (log @ [call v]) vs)"

text \<open>
  The data answered to the update mutation of a tool call, read off the log of the call: the
  update handlers make the mutation as their last call.
\<close>

definition update_response :: "env \<Rightarrow> gql_call list \<Rightarrow> json option" where
  "update_response env log =
     (if log \<noteq> [] \<and> fst (last log) = UPDATE_PAGE_MUTATION
      then (case graphql_request env (butlast log) (last log) of
              Inl e \<Rightarrow> None
            | Inr data \<Rightarrow> Some data)
      else None)"

text \<open>
  The message of an update response that signals failure: \<^verbatim>\<open>responseResult\<close> is there and
  its \<^verbatim>\<open>succeeded\<close> is false (falsy).
\<close>

definition failed_message :: "json \<Rightarrow> json option" where
  "failed_message data =
     (let responseResult = get_prop (guarded data ''pages'' ''update'') ''responseResult'' in
      if truthy responseResult \<and> \<not> truthy (get_prop responseResult ''succeeded'')
      then Some (get_prop responseResult ''message'')
      else None)"

text \<open>The last call of a log was rejected: the request threw.\<close>

definition last_rejected :: "env \<Rightarrow> gql_call list \<Rightarrow> bool" where
  "last_rejected env log = (log \<noteq> [] \<and> isl (graphql_request env (butlast log) (last log)))"

text \<open>A result whose content is one block of type \<^verbatim>\<open>text\<close>.\<close>

definition one_text_block :: "ToolCallResult \<Rightarrow> bool" where
  "one_text_block r = (case content r of [b] \<Rightarrow> block_type b = ''text'' | _ \<Rightarrow> False)"

text \<open>The text of a result.\<close>

definition result_text :: "ToolCallResult \<Rightarrow> string" where
  "result_text r = concat (map block_text (content r))"

section \<open>Test doubles\<close>

text \<open>
  An environment for running the handlers on concrete inputs: the server is given, the
  library functions are fixed stand-ins.
\<close>

definition test_env :: "(gql_call list \<Rightarrow> gql_call \<Rightarrow> thrown + json) \<Rightarrow> env" where
  "test_env server =
     \<lparr>graphql_request = server,
      JSON_stringify = (\<lambda>v. ''{}''),
      JSON_stringify_flat = (\<lambda>v. ''{}''),
      toLocaleString = js_toString,
      error_stack = (\<lambda>name msg. []),
      query_text = (\<lambda>q. []),
      WIKI_API_URL = ''http://wiki'',
      WIKI_API_TOKEN = ''secret''\<rparr>"

text \<open>A server whose listing holds the given pages.\<close>

definition listing_server :: "json list \<Rightarrow> gql_call list \<Rightarrow> gql_call \<Rightarrow> thrown + json" where
  "listing_server pages log call = Inr (JObj [(''pages'', JObj [(''list'', JArr pages)])])"

text \<open>A wiki page, and what a mutation answers when it succeeds with that page.\<close>

definition page7 :: json where
  "page7 = JObj [(''id'', JNum 7), (''path'', JStr ''ja/home''), (''title'', JStr ''Home''),
                 (''content'', JStr ''Welcome'')]"

definition ok7 :: json where
  "ok7 = JObj [(''responseResult'', JObj [(''succeeded'', JBool True)]), (''page'', page7)]"

text \<open>A server on which every lookup finds the page and every mutation succeeds.\<close>

definition accepting_server :: "gql_call list \<Rightarrow> gql_call \<Rightarrow> thrown + json" where
  "accepting_server log call =
     Inr (JObj [(''pages'', JObj [(''single'', page7), (''singleByPath'', page7),
                                   (''create'', ok7), (''update'', ok7)])])"

text \<open>A server that finds no page and creates none: the data holds nothing.\<close>

definition empty_server :: "gql_call list \<Rightarrow> gql_call \<Rightarrow> thrown + json" where
  "empty_server log call = Inr (JObj [(''pages'', JObj [])])"

text \<open>A server every request to which is rejected.\<close>

definition rejecting_server :: "gql_call list \<Rightarrow> gql_call \<Rightarrow> thrown + json" where
  "rejecting_server log call = Inl (JsError ''Error'' ''connect ECONNREFUSED'' [])"

text \<open>
  A server on which every lookup by path finds the given page and every update mutation is
  answered with the given result.
\<close>

definition update_server :: "json \<Rightarrow> json \<Rightarrow> gql_call list \<Rightarrow> gql_call \<Rightarrow> thrown + json" where
  "update_server page answer log call =
     Inr (JObj [(''pages'', JObj [(''singleByPath'', page), (''update'', answer)])])"

text \<open>The result of a mutation that failed with the given message.\<close>

definition failure :: "json \<Rightarrow> json" where
  "failure message =
     JObj [(''responseResult'', JObj [(''succeeded'', JBool False), (''message'', message)])]"


text \<open>
  A server that holds one page, at the path \<^verbatim>\<open>home\<close>, and accepts a creation at that path
  only; it rejects every request on the path \<^verbatim>\<open>ja/home\<close> and answers every other request
  with data that holds nothing.
\<close>

definition home_server :: "gql_call list \<Rightarrow> gql_call \<Rightarrow> thrown + json" where
  "home_server log call =
     (if get_prop (snd call) ''path'' = JStr ''ja/home''
      then Inl (JsError ''Error'' ''connect ECONNREFUSED'' [])
      else if get_prop (snd call) ''path'' = JStr ''home''
      then Inr (JObj [(''pages'', JObj [(''singleByPath'', page7), (''create'', ok7)])])
      else Inr (JObj [(''pages'', JObj [])]))"

section \<open>Auxiliary facts\<close>

lemma is_object_truthy: "is_object v \<Longrightarrow> truthy v"
  by (cases v) simp_all

lemma show_nat_digit: "n < 10 \<Longrightarrow> show_nat n = [digit_char n]"
  by (simp add: show_nat.simps)

subsection \<open>The listing\<close>

lemma pageLine_object:
  "page \<noteq> JNull \<Longrightarrow> page \<noteq> JUndefined \<Longrightarrow>
   pageLine env page =
     Inr (''- '' @ js_toString (get_prop page ''title'') @ '' (ID: '' @ js_toString (get_prop page ''id'')
          @ '', Path: '' @ js_toString (get_prop page ''path'') @ '')''
          @ (if truthy (get_prop page ''updatedAt'')
             then NL @ ''  Last Updated: '' @ toLocaleString env (get_prop page ''updatedAt'')
             else []))"
  by (simp add: pageLine_def prop_strict_def)

lemma map_throw_total:
  "\<forall>x \<in> set xs. f x = Inr (g x) \<Longrightarrow> map_throw f xs = Inr (map g xs)"
  by (induction xs) simp_all

lemma wiki_list_pages_data:
  assumes obj: "is_object args"
    and resp: "graphql_request env log
                 (LIST_PAGES_QUERY,
                  JObj [(''orderBy'', js_or (get_prop args ''orderBy'') (JStr ''TITLE'')),
                        (''limit'', js_or (get_prop args ''limit'') (JNum 10))]) = Inr data"
    and lst: "get_prop (get_prop data ''pages'') ''list'' = JArr ps"
    and lines: "map_throw (pageLine env) ps = Inr ls"
  shows "fst (wiki_list_pages env args log) =
         Inr (text_result (if ps = [] then ''No pages found'' else js_join (NL @ NL) ls) False)"
proof -
  have d: "data \<noteq> JUndefined" "data \<noteq> JNull" using lst by auto
  have p: "get_prop data ''pages'' \<noteq> JUndefined" "get_prop data ''pages'' \<noteq> JNull" using lst by auto
  show ?thesis
    using obj resp lst d p lines
    by (simp add: wiki_list_pages_def isListPagesArgs_def request_def prop_strict_def Let_def)
qed

subsection \<open>Every result is one text block\<close>

lemma text_result_sel [simp]:
  "content (text_result t e) = [\<lparr>block_type = ''text'', block_text = t\<rparr>]"
  "isError (text_result t e) = e"
  by (simp_all add: text_result_def)

lemma result_text_text_result [simp]: "result_text (text_result t e) = t"
  by (simp add: result_text_def text_result_def)

lemma one_text_block_text_result [simp]: "one_text_block (text_result t e)"
  by (simp add: one_text_block_def)





lemma get_page_result_text [simp]: "one_text_block (get_page_result args page d)"
  by (simp add: get_page_result_def)

lemma catch_result_text [simp]: "one_text_block (catch_result env a b e)"
  by (simp add: catch_result_def)









subsection \<open>Trying in order\<close>

lemma attempts_le: "attempts ok call log vs \<le> length vs"
  by (induction vs arbitrary: log) auto

lemma attempts_pos: "vs \<noteq> [] \<Longrightarrow> 0 < attempts ok call log vs"
  by (cases vs) auto

lemma attempts_all: "\<not> succeeded ok call log vs \<Longrightarrow> attempts ok call log vs = length vs"
  by (induction vs arbitrary: log) auto

lemma attempts_early: "attempts ok call log vs < length vs \<Longrightarrow> succeeded ok call log vs"
  using attempts_all by fastforce

lemma attempts_last:
  "succeeded ok call log vs \<Longrightarrow>
   ok (log @ map call (take (attempts ok call log vs - 1) vs)) (vs ! (attempts ok call log vs - 1))"
proof (induction vs arbitrary: log)
  case Nil
  then show ?case by simp
next
  case (Cons v vs)
  show ?case
  proof (cases "ok log v")
    case True
    then show ?thesis by simp
  next
    case False
    with Cons.prems have s: "succeeded ok call (log @ [call v]) vs" by simp
    then have "vs \<noteq> []" by auto
    then have p: "0 < attempts ok call (log @ [call v]) vs" by (rule attempts_pos)
    from Cons.IH[OF s] False p show ?thesis
      by (cases "attempts ok call (log @ [call v]) vs") simp_all
  qed
qed

lemma attempts_before:
  "j < attempts ok call log vs - 1 \<Longrightarrow> \<not> ok (log @ map call (take j vs)) (vs ! j)"
proof (induction vs arbitrary: log j)
  case Nil
  then show ?case by simp
next
  case (Cons v vs)
  show ?case
  proof (cases "ok log v")
    case True
    with Cons.prems show ?thesis by simp
  next
    case False
    show ?thesis
    proof (cases j)
      case 0
      with False show ?thesis by simp
    next
      case (Suc j')
      with Cons.prems False have "j' < attempts ok call (log @ [call v]) vs - 1" by simp
      from Cons.IH[OF this] Suc show ?thesis by simp
    qed
  qed
qed

lemma attempts_failed:
  "\<not> succeeded ok call log vs \<Longrightarrow> j < length vs \<Longrightarrow> \<not> ok (log @ map call (take j vs)) (vs ! j)"
proof (induction vs arbitrary: log j)
  case Nil
  then show ?case by simp
next
  case (Cons v vs)
  show ?case
  proof (cases j)
    case 0
    with Cons.prems show ?thesis by simp
  next
    case (Suc j')
    with Cons.prems have "\<not> succeeded ok call (log @ [call v]) vs" "j' < length vs" by simp_all
    from Cons.IH[OF this] Suc show ?thesis by simp
  qed
qed

subsection \<open>The retry cycles of revision A\<close>

lemma guarded_truthy:
  "truthy (guarded d a b) \<Longrightarrow> guarded d a b = get_prop (get_prop d a) b"
  by (auto simp: guarded_def js_and_def split: if_splits)

lemma get_page_loop_A_trace:
  "get_page_loop_A env vs i d log = (page, d', log') \<Longrightarrow>
   log' = log @ map lookup_call (take (attempts (lookup_finds env) lookup_call log vs) vs)
   \<and> truthy page = succeeded (lookup_finds env) lookup_call log vs
   \<and> (truthy page \<longrightarrow>
        page = found_page env
                 (log @ map lookup_call (take (attempts (lookup_finds env) lookup_call log vs - 1) vs))
                 (vs ! (attempts (lookup_finds env) lookup_call log vs - 1)))"
proof (induction vs arbitrary: i d log)
  case Nil
  then show ?case by simp
next
  case (Cons v vs)
  show ?case
  proof (cases "lookup_finds env log v")
    case True
    then obtain data where
      resp: "graphql_request env log (GET_PAGE_BY_PATH_QUERY, JObj [(''path'', JStr v)]) = Inr data"
      and tr: "truthy (guarded data ''pages'' ''singleByPath'')"
      by (auto simp: lookup_finds_def found_page_def lookup_call_def split: sum.splits)
    from Cons.prems resp tr have
      "page = get_prop (get_prop data ''pages'') ''singleByPath''" "log' = log @ [lookup_call v]"
      by (simp_all add: Let_def request_def lookup_call_def)
    with True resp tr show ?thesis
      using guarded_truthy[OF tr]
      by (simp add: found_page_def lookup_call_def)
  next
    case False
    then obtain i' d2 where
      rec: "get_page_loop_A env vs i' d2 (log @ [lookup_call v]) = (page, d', log')"
      using Cons.prems
      by (auto simp: Let_def request_def lookup_finds_def found_page_def lookup_call_def
               split: sum.splits if_splits)
    note ih = Cons.IH[OF rec]
    show ?thesis
    proof (cases "attempts (lookup_finds env) lookup_call (log @ [lookup_call v]) vs")
      case 0
      then have "vs = []" using attempts_pos[of vs "lookup_finds env" lookup_call "log @ [lookup_call v]"] by auto
      with ih False show ?thesis by simp
    next
      case (Suc n)
      with ih False show ?thesis by simp
    qed
  qed
qed


lemma update_lookup_loop_A_trace:
  "update_lookup_loop_A env vs i d log = (page, d', log') \<Longrightarrow>
   log' = log @ map lookup_call (take (attempts (lookup_finds env) lookup_call log vs) vs)
   \<and> truthy page = succeeded (lookup_finds env) lookup_call log vs
   \<and> (truthy page \<longrightarrow>
        page = found_page env
                 (log @ map lookup_call (take (attempts (lookup_finds env) lookup_call log vs - 1) vs))
                 (vs ! (attempts (lookup_finds env) lookup_call log vs - 1)))"
proof (induction vs arbitrary: i d log)
  case Nil
  then show ?case by simp
next
  case (Cons v vs)
  show ?case
  proof (cases "lookup_finds env log v")
    case True
    then obtain data where
      resp: "graphql_request env log (GET_PAGE_BY_PATH_QUERY, JObj [(''path'', JStr v)]) = Inr data"
      and tr: "truthy (guarded data ''pages'' ''singleByPath'')"
      by (auto simp: lookup_finds_def found_page_def lookup_call_def split: sum.splits)
    from Cons.prems resp tr have
      "page = get_prop (get_prop data ''pages'') ''singleByPath''" "log' = log @ [lookup_call v]"
      by (simp_all add: Let_def request_def lookup_call_def)
    with True resp tr show ?thesis
      using guarded_truthy[OF tr]
      by (simp add: found_page_def lookup_call_def)
  next
    case False
    then obtain i' d2 where
      rec: "update_lookup_loop_A env vs i' d2 (log @ [lookup_call v]) = (page, d', log')"
      using Cons.prems
      by (auto simp: Let_def request_def lookup_finds_def found_page_def lookup_call_def
               split: sum.splits if_splits)
    note ih = Cons.IH[OF rec]
    show ?thesis
    proof (cases "attempts (lookup_finds env) lookup_call (log @ [lookup_call v]) vs")
      case 0
      then have "vs = []"
        using attempts_pos[of vs "lookup_finds env" lookup_call "log @ [lookup_call v]"] by auto
      with ih False show ?thesis by simp
    next
      case (Suc n)
      with ih False show ?thesis by simp
    qed
  qed
qed

lemma create_page_loop_A_trace:
  "create_page_loop_A env args vs i d log = (ro, d', log') \<Longrightarrow>
   log' = log @ map (create_call_A args)
                  (take (attempts (create_accepted_A env args) (create_call_A args) log vs) vs)
   \<and> (ro \<noteq> None) = succeeded (create_accepted_A env args) (create_call_A args) log vs
   \<and> (\<forall>r. ro = Some r \<longrightarrow>
         \<not> isError r \<and> one_text_block r \<and> prefix ''Page created successfully:'' (result_text r))"
proof (induction vs arbitrary: i d log)
  case Nil
  then show ?case by simp
next
  case (Cons v vs)
  show ?case
  proof (cases "create_accepted_A env args log v")
    case True
    then obtain data where
      resp: "graphql_request env log (CREATE_PAGE_MUTATION, create_params_A args v) = Inr data"
      and ok: "create_succeeded_A data"
      by (auto simp: create_accepted_A_def create_call_A_def split: sum.splits)
    from ok have tr: "truthy (guarded data ''pages'' ''create'')"
      by (simp add: create_succeeded_A_def)
    from Cons.prems resp ok tr have
      "\<exists>r. ro = Some r \<and> \<not> isError r \<and> one_text_block r
           \<and> prefix ''Page created successfully:'' (result_text r)"
      "log' = log @ [create_call_A args v]"
      by (auto simp: Let_def request_def create_call_A_def)
    with True show ?thesis by auto
  next
    case False
    then obtain i' d2 where
      rec: "create_page_loop_A env args vs i' d2 (log @ [create_call_A args v]) = (ro, d', log')"
      using Cons.prems
      by (auto simp: Let_def request_def create_accepted_A_def create_call_A_def
               split: sum.splits if_splits)
    note ih = Cons.IH[OF rec]
    from ih False show ?thesis by simp
  qed
qed

lemma attempts_spec:
  assumes "vs \<noteq> []" and "k = attempts ok call [] vs"
  shows "0 < k \<and> k \<le> length vs
         \<and> (\<forall>j<k - 1. \<not> ok (map call (take j vs)) (vs ! j))
         \<and> succeeded ok call [] vs = ok (map call (take (k - 1) vs)) (vs ! (k - 1))
         \<and> (k < length vs \<longrightarrow> succeeded ok call [] vs)"
proof -
  have pos: "0 < k" using assms attempts_pos by metis
  have le: "k \<le> length vs" using assms attempts_le by metis
  have before: "\<forall>j<k - 1. \<not> ok (map call (take j vs)) (vs ! j)"
    using attempts_before[of _ ok call "[]" vs] assms(2) by simp
  have last: "succeeded ok call [] vs = ok (map call (take (k - 1) vs)) (vs ! (k - 1))"
  proof (cases "succeeded ok call [] vs")
    case True
    then show ?thesis using attempts_last[of ok call "[]" vs] assms(2) by simp
  next
    case False
    have "k - 1 < length vs" using pos le by simp
    from attempts_failed[OF False this] False show ?thesis by simp
  qed
  have early: "k < length vs \<longrightarrow> succeeded ok call [] vs"
    using attempts_early[of ok call "[]" vs] assms(2) by simp
  from pos le before last early show ?thesis by blast
qed

subsection \<open>The variations of a path\<close>

lemma cons3_neq: "a # b # c # xs \<noteq> xs"
proof
  assume "a # b # c # xs = xs"
  then have "length (a # b # c # xs) = length xs" by (rule arg_cong)
  then show False by simp
qed

lemma cons4_neq: "a # b # c # d # xs \<noteq> xs"
proof
  assume "a # b # c # d # xs = xs"
  then have "length (a # b # c # d # xs) = length xs" by (rule arg_cong)
  then show False by simp
qed

lemma cons2_neq: "a # b # c # xs \<noteq> d # xs"
proof
  assume "a # b # c # xs = d # xs"
  then have "length (a # b # c # xs) = length (d # xs)" by (rule arg_cong)
  then show False by simp
qed

lemma normalizePath_no_slash: "\<not> startsWith_slash p \<Longrightarrow> normalizePath p = p"
  by (simp add: normalizePath_def)

lemma normalizePath_slash: "normalizePath (CHR ''/'' # p) = p"
  by (simp add: normalizePath_def substring1_def)

lemma generatePathVariations_eq:
  "generatePathVariations p =
     (if hasLangPrefix (normalizePath p) then [normalizePath p]
      else [''ja/'' @ normalizePath p, ''/ja/'' @ normalizePath p, normalizePath p])
     @ (if startsWith_slash p then [] else [''/'' @ p])
     @ (if hasLangPrefix (normalizePath p) then []
        else [''en/'' @ normalizePath p, ''/en/'' @ normalizePath p])"
proof (cases "startsWith_slash p")
  case True
  then show ?thesis
    by (simp add: generatePathVariations_def Let_def cons3_neq cons4_neq)
next
  case False
  then have n: "normalizePath p = p" by (rule normalizePath_no_slash)
  have "CHR ''/'' # p \<noteq> p" by simp
  moreover have "CHR ''/'' # p \<noteq> ''ja/'' @ p" using cons2_neq[of "CHR ''j''" "CHR ''a''" "CHR ''/''" p "CHR ''/''"] by auto
  moreover have "CHR ''/'' # p \<noteq> ''/ja/'' @ p" using cons3_neq[of "CHR ''j''" "CHR ''a''" "CHR ''/''" p] by auto
  ultimately show ?thesis using False n
    by (simp add: generatePathVariations_def Let_def cons3_neq cons4_neq)
qed

lemma generatePathVariations_nonempty: "generatePathVariations p \<noteq> []"
  by (simp add: generatePathVariations_eq)

subsection \<open>Revision A: the calls of the lookup by path and of the creation\<close>

lemma get_prop_string_object:
  "get_prop args k = JStr p \<Longrightarrow> is_object args \<and> truthy args \<and> has_prop k args \<and> is_string (get_prop args k)"
  by (cases args) (auto split: option.splits)

lemma wiki_get_page_A_by_path:
  assumes id: "\<not> truthy (get_prop args ''id'')"
    and path: "get_prop args ''path'' = JStr p"
    and ne: "p \<noteq> []"
  shows "snd (callTool_A env ''wiki_get_page'' args) =
           map lookup_call (take (attempts (lookup_finds env) lookup_call [] (generatePathVariations p))
                                 (generatePathVariations p))
         \<and> isError (fst (callTool_A env ''wiki_get_page'' args)) =
             (\<not> succeeded (lookup_finds env) lookup_call [] (generatePathVariations p))"
proof -
  obtain page d2 log1 where
    loop: "get_page_loop_A env (generatePathVariations p) 0
             (debugLog env ''GET PAGE BY PATH - PATH VARIATIONS''
                (JObj [(''variations'', str_array (generatePathVariations p))])
              @ debugLog env ''GET PAGE BY PATH QUERY'' (JStr (query_text env GET_PAGE_BY_PATH_QUERY)))
             [] = (page, d2, log1)"
    by (metis prod_cases3)
  note tr = get_page_loop_A_trace[OF loop]
  have v: "isGetPageArgs args" "truthy args"
    using get_prop_string_object[OF path] by (simp_all add: isGetPageArgs_def)
  show ?thesis
    using id path ne v loop tr
    by (simp add: callTool_A_def callTool_try_A_def wiki_get_page_A_def wiki_get_page_try_A_def
                  Let_def get_page_result_def)
qed

lemma wiki_create_page_A_calls:
  assumes valid: "isCreatePageArgs args"
    and path: "get_prop args ''path'' = JStr p"
  shows "snd (callTool_A env ''wiki_create_page'' args) =
           map (create_call_A args)
               (take (attempts (create_accepted_A env args) (create_call_A args) [] (generatePathVariations p))
                     (generatePathVariations p))
         \<and> isError (fst (callTool_A env ''wiki_create_page'' args)) =
             (\<not> succeeded (create_accepted_A env args) (create_call_A args) [] (generatePathVariations p))
         \<and> one_text_block (fst (callTool_A env ''wiki_create_page'' args))
         \<and> prefix (if isError (fst (callTool_A env ''wiki_create_page'' args))
                    then create_exhausted_text_A else ''Page created successfully:'')
                   (result_text (fst (callTool_A env ''wiki_create_page'' args)))"
proof -
  obtain ro d2 log1 where
    loop: "create_page_loop_A env args (generatePathVariations p) 0
             (debugLog env ''CREATE PAGE - PATH VARIATIONS''
                (JObj [(''variations'', str_array (generatePathVariations p))])
              @ debugLog env ''CREATE PAGE GRAPHQL MUTATION'' (JStr (query_text env CREATE_PAGE_MUTATION)))
             [] = (ro, d2, log1)"
    by (metis prod_cases3)
  note tr = create_page_loop_A_trace[OF loop]
  have t: "truthy args" using get_prop_string_object[OF path] by simp
  show ?thesis
  proof (cases ro)
    case None
    then show ?thesis
      using valid path t loop tr
      by (simp add: callTool_A_def callTool_try_A_def wiki_create_page_A_def wiki_create_page_try_A_def
                    Let_def)
  next
    case (Some r)
    then show ?thesis
      using valid path t loop tr
      by (simp add: callTool_A_def callTool_try_A_def wiki_create_page_A_def wiki_create_page_try_A_def
                    Let_def)
  qed
qed

subsection \<open>One lookup by the normalized path (revisions B and D)\<close>

lemma wiki_get_page_B_by_path:
  assumes "\<not> truthy (get_prop args ''id'')" and "get_prop args ''path'' = JStr q" and "q \<noteq> []"
  shows "snd (wiki_get_page_B env args []) = [lookup_call (normalizePath q)]"
proof -
  have v: "isGetPageArgs args"
    using get_prop_string_object[OF assms(2)] by (simp add: isGetPageArgs_def)
  show ?thesis using assms v
    by (auto simp: wiki_get_page_B_def wiki_get_page_try_B_def request_def Let_def lookup_call_def
             split: sum.splits prod.splits)
qed

lemma wiki_get_page_D_by_path:
  assumes "\<not> truthy (get_prop args ''id'')" and "get_prop args ''path'' = JStr q" and "q \<noteq> []"
  shows "snd (callTool_D env ''wiki_get_page'' args) = [lookup_call (normalizePath_D q)]"
proof -
  have v: "isGetPageArgs args" "truthy args"
    using get_prop_string_object[OF assms(2)] by (simp_all add: isGetPageArgs_def)
  show ?thesis using assms v
    by (auto simp: callTool_D_def callTool_try_D_def wiki_get_page_D_def wiki_get_page_try_D_def
                   request_def lookup_call_def
             split: sum.splits prod.splits)
qed

subsection \<open>The lookup by id\<close>

lemma get_prop_number_object:
  "get_prop args k = JNum n \<Longrightarrow> is_object args \<and> truthy args \<and> has_prop k args \<and> is_number (get_prop args k)"
  by (cases args) (auto split: option.splits)

lemma get_page_by_id_calls:
  "snd (get_page_by_id env args log) = log @ [(GET_PAGE_BY_ID_QUERY, JObj [(''id'', get_prop args ''id'')])]"
  by (auto simp: get_page_by_id_def request_def Let_def split: sum.splits prod.splits)

lemma wiki_get_page_A_by_id:
  assumes "get_prop args ''id'' = JNum n" and "n \<noteq> 0"
  shows "snd (callTool_A env ''wiki_get_page'' args) = [(GET_PAGE_BY_ID_QUERY, JObj [(''id'', JNum n)])]"
proof -
  have v: "isGetPageArgs args" "truthy args"
    using get_prop_number_object[OF assms(1)] by (simp_all add: isGetPageArgs_def)
  have "snd (wiki_get_page_try_A env args []) = [(GET_PAGE_BY_ID_QUERY, JObj [(''id'', JNum n)])]"
    using assms get_page_by_id_calls[of env args "[]"] by (simp add: wiki_get_page_try_A_def)
  then show ?thesis using v
    by (auto simp: callTool_A_def callTool_try_A_def wiki_get_page_A_def
             split: sum.splits prod.splits)
qed

lemma wiki_get_page_D_by_id:
  assumes "get_prop args ''id'' = JNum n" and "n \<noteq> 0"
  shows "snd (callTool_D env ''wiki_get_page'' args) = [(GET_PAGE_BY_ID_QUERY, JObj [(''id'', JNum n)])]"
proof -
  have v: "isGetPageArgs args" "truthy args"
    using get_prop_number_object[OF assms(1)] by (simp_all add: isGetPageArgs_def)
  show ?thesis using assms v
    by (auto simp: callTool_D_def callTool_try_D_def wiki_get_page_D_def wiki_get_page_try_D_def
                   request_def
             split: sum.splits prod.splits)
qed

subsection \<open>Substrings\<close>

lemma str_includes_iff: "str_includes s t = (\<exists>a b. s = a @ t @ b)"
proof (induction s)
  case Nil
  then show ?case by auto
next
  case (Cons c cs)
  show ?case
  proof
    assume "str_includes (c # cs) t"
    then consider "prefix t (c # cs)" | "str_includes cs t" by auto
    then show "\<exists>a b. c # cs = a @ t @ b"
    proof cases
      case 1
      then obtain b where "c # cs = t @ b" by (auto simp: prefix_def)
      then have "c # cs = [] @ t @ b" by simp
      then show ?thesis by blast
    next
      case 2
      with Cons.IH obtain a b where "cs = a @ t @ b" by auto
      then have "c # cs = (c # a) @ t @ b" by simp
      then show ?thesis by blast
    qed
  next
    assume "\<exists>a b. c # cs = a @ t @ b"
    then obtain a b where ab: "c # cs = a @ t @ b" by auto
    show "str_includes (c # cs) t"
    proof (cases a)
      case Nil
      with ab have "prefix t (c # cs)" by (simp add: prefix_def)
      then show ?thesis by simp
    next
      case (Cons x a')
      with ab have "cs = a' @ t @ b" by simp
      with Cons.IH have "str_includes cs t" by auto
      then show ?thesis by simp
    qed
  qed
qed

subsection \<open>The update mutation\<close>

lemma lookup_call_not_update [simp]: "fst (lookup_call p) \<noteq> UPDATE_PAGE_MUTATION"
  by (simp add: lookup_call_def)

lemma update_response_lookups:
  "\<forall>c \<in> set log. fst c = GET_PAGE_BY_PATH_QUERY \<Longrightarrow> update_response env log = None"
  by (cases log rule: rev_cases) (auto simp: update_response_def)

lemma update_response_snoc:
  "update_response env (log @ [(UPDATE_PAGE_MUTATION, v)])
     = (case graphql_request env log (UPDATE_PAGE_MUTATION, v) of Inl e \<Rightarrow> None | Inr data \<Rightarrow> Some data)"
  by (simp add: update_response_def)

lemma resolve_pageId_A_lookups:
  "resolve_pageId_A env args [] = (x, log) \<Longrightarrow> \<forall>c \<in> set log. fst c = GET_PAGE_BY_PATH_QUERY"
proof -
  assume r: "resolve_pageId_A env args [] = (x, log)"
  have loop: "\<And>vs d page d' log'. update_lookup_loop_A env vs 0 d [] = (page, d', log')
                \<Longrightarrow> \<forall>c \<in> set log'. fst c = GET_PAGE_BY_PATH_QUERY"
    using update_lookup_loop_A_trace by (fastforce simp: lookup_call_def dest: in_set_takeD)
  from r show ?thesis
    by (auto simp: resolve_pageId_A_def Let_def dest!: loop split: if_splits sum.splits prod.splits)
qed

lemma resolve_pageId_C_lookups:
  "resolve_pageId_C env args [] = (x, log) \<Longrightarrow> \<forall>c \<in> set log. fst c = GET_PAGE_BY_PATH_QUERY"
  by (auto simp: resolve_pageId_C_def Let_def request_def split: if_splits sum.splits prod.splits)

lemma update_mutation_A_result:
  "update_mutation_A env args pageId d log = (r, log') \<Longrightarrow>
   log' = log @ [(UPDATE_PAGE_MUTATION, update_params args pageId)]
   \<and> (\<forall>data. graphql_request env log (UPDATE_PAGE_MUTATION, update_params args pageId) = Inr data
         \<longrightarrow> (\<exists>d2. r = update_result_A env data d2))
   \<and> (\<forall>e. graphql_request env log (UPDATE_PAGE_MUTATION, update_params args pageId) = Inl e
         \<longrightarrow> r = Inl e)"
  by (auto simp: update_mutation_A_def Let_def request_def split: sum.splits)

lemma wiki_update_page_try_A_response:
  assumes "wiki_update_page_try_A env args [] = (r, log)"
    and "update_response env log = Some data"
  shows "\<exists>d. r = update_result_A env data d"
proof (cases "resolve_pageId_A env args []")
  case (Pair x log1)
  note lk = resolve_pageId_A_lookups[OF Pair]
  show ?thesis
  proof (cases x)
    case (Inl e)
    with assms Pair lk show ?thesis
      by (simp add: wiki_update_page_try_A_def update_response_lookups)
  next
    case (Inr y)
    show ?thesis
    proof (cases y)
      case (Inl res)
      with assms Pair lk Inr show ?thesis
        by (simp add: wiki_update_page_try_A_def update_response_lookups)
    next
      case (Inr pd)
      obtain pageId d where pd: "pd = (pageId, d)" by (cases pd)
      from assms(1) Pair \<open>x = Inr y\<close> Inr pd
      have m: "update_mutation_A env args pageId d log1 = (r, log)"
        by (simp add: wiki_update_page_try_A_def)
      note res = update_mutation_A_result[OF m]
      from res assms(2) show ?thesis
        by (auto simp: update_response_snoc split: sum.splits)
    qed
  qed
qed

lemma wiki_update_page_try_C_response:
  assumes "wiki_update_page_try_C env args [] = (r, log)"
    and "update_response env log = Some data"
  shows "\<exists>d. r = update_result_A env data d"
proof (cases "resolve_pageId_C env args []")
  case (Pair x log1)
  note lk = resolve_pageId_C_lookups[OF Pair]
  show ?thesis
  proof (cases x)
    case (Inl e)
    with assms Pair lk show ?thesis
      by (simp add: wiki_update_page_try_C_def update_response_lookups)
  next
    case (Inr y)
    show ?thesis
    proof (cases y)
      case (Inl res)
      with assms Pair lk Inr show ?thesis
        by (simp add: wiki_update_page_try_C_def update_response_lookups)
    next
      case (Inr pd)
      obtain pageId d where pd: "pd = (pageId, d)" by (cases pd)
      from assms(1) Pair \<open>x = Inr y\<close> Inr pd
      have m: "update_mutation_A env args pageId d log1 = (r, log)"
        by (simp add: wiki_update_page_try_C_def)
      note res = update_mutation_A_result[OF m]
      from res assms(2) show ?thesis
        by (auto simp: update_response_snoc split: sum.splits)
    qed
  qed
qed

lemma update_response_Nil [simp]: "update_response env [] = None"
  by (simp add: update_response_def)

lemma wiki_update_page_A_response:
  assumes "update_response env (snd (wiki_update_page_A env args [])) = Some data"
  shows "\<exists>d. fst (wiki_update_page_A env args [])
           = Inr (case update_result_A env data d of
                    Inl error \<Rightarrow> catch_result env ''Error updating page'' ''UPDATE PAGE ERROR'' error
                  | Inr r \<Rightarrow> r)"
proof (cases "wiki_update_page_try_A env args []")
  case (Pair r log)
  from assms have v: "isUpdatePageArgs args"
    by (auto simp: wiki_update_page_A_def split: if_splits)
  with assms Pair have "update_response env log = Some data"
    by (auto simp: wiki_update_page_A_def split: sum.splits)
  from wiki_update_page_try_A_response[OF Pair this] obtain d where "r = update_result_A env data d" ..
  with Pair v show ?thesis
    by (intro exI[of _ d]) (simp add: wiki_update_page_A_def split: sum.splits)
qed

lemma wiki_update_page_C_response:
  assumes "update_response env (snd (wiki_update_page_C env args [])) = Some data"
  shows "\<exists>d. fst (wiki_update_page_C env args [])
           = Inr (case update_result_A env data d of
                    Inl error \<Rightarrow> catch_result env ''Error updating page'' ''UPDATE PAGE ERROR'' error
                  | Inr r \<Rightarrow> r)"
proof (cases "wiki_update_page_try_C env args []")
  case (Pair r log)
  from assms have v: "isUpdatePageArgs args"
    by (auto simp: wiki_update_page_C_def split: if_splits)
  with assms Pair have "update_response env log = Some data"
    by (auto simp: wiki_update_page_C_def split: sum.splits)
  from wiki_update_page_try_C_response[OF Pair this] obtain d where "r = update_result_A env data d" ..
  with Pair v show ?thesis
    by (intro exI[of _ d]) (simp add: wiki_update_page_C_def split: sum.splits)
qed

lemma map_of_undefined_nonempty: "map_of_undefined \<noteq> []"
  by (simp add: map_of_undefined_def)

lemma str_includes_Nil [simp]: "t \<noteq> [] \<Longrightarrow> \<not> str_includes [] t"
  by simp

lemma update_result_A_failed_string:
  assumes "failed_message data = Some (JStr m)"
  shows "\<exists>r. update_result_A env data d = Inr r \<and> one_text_block r
              \<and> isError r = (\<not> str_includes m map_of_undefined)"
proof -
  from assms have g: "truthy (guarded data ''pages'' ''update'')"
    by (cases "guarded data ''pages'' ''update''") (auto simp: failed_message_def Let_def split: if_splits)
  note e = guarded_truthy[OF g]
  from assms g e show ?thesis
    using map_of_undefined_nonempty
    by (cases "m = []"; cases "str_includes m map_of_undefined")
       (auto simp: failed_message_def update_result_A_def Let_def split: if_splits)
qed

lemma update_result_A_failed_absent:
  assumes "failed_message data = Some msg" and "msg = JNull \<or> msg = JUndefined"
  shows "\<exists>r. update_result_A env data d = Inr r \<and> one_text_block r \<and> isError r"
proof -
  from assms have g: "truthy (guarded data ''pages'' ''update'')"
    by (cases "guarded data ''pages'' ''update''") (auto simp: failed_message_def Let_def split: if_splits)
  note e = guarded_truthy[OF g]
  from assms g e show ?thesis
    by (auto simp: failed_message_def update_result_A_def Let_def split: if_splits)
qed


lemma wiki_update_page_by_id_calls:
  assumes "get_prop args ''id'' = JNum n" and "n \<noteq> 0"
  shows "snd (wiki_update_page_A env args []) = [(UPDATE_PAGE_MUTATION, update_params args (JNum n))]"
    and "snd (wiki_update_page_C env args []) = [(UPDATE_PAGE_MUTATION, update_params args (JNum n))]"
proof -
  have v: "isUpdatePageArgs args"
    using get_prop_number_object[OF assms(1)] by (simp add: isUpdatePageArgs_def)
  show "snd (wiki_update_page_A env args []) = [(UPDATE_PAGE_MUTATION, update_params args (JNum n))]"
    using assms v
    by (auto simp: wiki_update_page_A_def wiki_update_page_try_A_def resolve_pageId_A_def
                   update_mutation_A_def request_def Let_def
             split: sum.splits prod.splits)
  show "snd (wiki_update_page_C env args []) = [(UPDATE_PAGE_MUTATION, update_params args (JNum n))]"
    using assms v
    by (auto simp: wiki_update_page_C_def wiki_update_page_try_C_def resolve_pageId_C_def
                   update_mutation_A_def request_def Let_def
             split: sum.splits prod.splits)
qed

lemma succeeded_iff:
  "succeeded ok call log vs = (\<exists>j<length vs. ok (log @ map call (take j vs)) (vs ! j))"
proof
  assume s: "succeeded ok call log vs"
  then have "vs \<noteq> []" by auto
  then have "attempts ok call log vs - 1 < length vs"
    using attempts_pos[of vs ok call log] attempts_le[of ok call log vs] by simp
  with attempts_last[OF s] show "\<exists>j<length vs. ok (log @ map call (take j vs)) (vs ! j)" by blast
next
  assume "\<exists>j<length vs. ok (log @ map call (take j vs)) (vs ! j)"
  then show "succeeded ok call log vs" using attempts_failed[of ok call log vs] by blast
qed

subsection \<open>The creation attempts of revision C\<close>

lemma create_attempt_C_trace:
  assumes "create_attempt_C env (create_params args p) rt at d log = (ro, d', log')"
  shows "log' = log @ [create_call_C args p]
         \<and> (ro \<noteq> None) = create_accepted_C env args log p
         \<and> (\<forall>r. ro = Some r \<longrightarrow>
               \<not> isError r \<and> one_text_block r \<and> prefix ''Page created successfully:'' (result_text r))"
  using assms
  by (auto simp: create_attempt_C_def create_accepted_C_def create_call_C_def request_def Let_def
           split: sum.splits if_splits)

lemma prefix_exhausted_A: "prefix ''Failed to create page after multiple attempts'' (create_exhausted_text_A @ t)"
  by (simp add: create_exhausted_text_A_def)

lemma prefix_exhausted_C: "prefix ''Failed to create page after multiple attempts'' (create_exhausted_text_C @ t)"
  by (simp add: create_exhausted_text_C_def)

lemma wiki_create_page_C_calls:
  assumes valid: "isCreatePageArgs args"
    and path: "get_prop args ''path'' = JStr p"
  shows "\<exists>r. fst (wiki_create_page_C env args []) = Inr r \<and> one_text_block r
           \<and> isError r = (\<not> create_accepted_C env args [] (normalizePath p)
                           \<and> (startsWith_slash p
                               \<or> \<not> create_accepted_C env args [create_call_C args (normalizePath p)] (''/'' @ p)))
           \<and> (isError r \<longrightarrow>
                snd (wiki_create_page_C env args [])
                  = create_call_C args (normalizePath p)
                    # (if startsWith_slash p then [] else [create_call_C args (''/'' @ p)])
                \<and> prefix ''Failed to create page after multiple attempts'' (result_text r))"
proof -
  define d0 where "d0 = debugLog env ''CREATE PAGE REQUEST PARAMETERS (ATTEMPT 1)''
                          (create_params args (normalizePath p))
                        @ debugLog env ''CREATE PAGE GRAPHQL MUTATION''
                            (JStr (query_text env CREATE_PAGE_MUTATION))"
  obtain ro d1 log1 where
    a1: "create_attempt_C env (create_params args (normalizePath p)) ''CREATE PAGE RESPONSE''
           ''(ATTEMPT 1)'' d0 [] = (ro, d1, log1)"
    by (metis prod_cases3)
  note t1 = create_attempt_C_trace[OF a1]
  define d2 where "d2 = d1 @ debugLog env ''CREATE PAGE REQUEST PARAMETERS (ATTEMPT 2)''
                               (create_params args (''/'' @ p))"
  obtain ro2 d3 log2 where
    a2: "create_attempt_C env (create_params args (''/'' @ p)) ''CREATE PAGE RESPONSE (ATTEMPT 2)''
           ''(ATTEMPT 2)'' d2 log1 = (ro2, d3, log2)"
    by (metis prod_cases3)
  note t2 = create_attempt_C_trace[OF a2]
  show ?thesis
  proof (cases ro)
    case (Some r)
    with valid path a1 t1 show ?thesis
      by (simp add: wiki_create_page_C_def wiki_create_page_try_C_def Let_def d0_def)
  next
    case None
    show ?thesis
    proof (cases "startsWith_slash p")
      case True
      with None valid path a1 t1 show ?thesis
        by (simp add: wiki_create_page_C_def wiki_create_page_try_C_def Let_def d0_def prefix_exhausted_C)
    next
      case False
      show ?thesis
      proof (cases ro2)
        case (Some r)
        with False None valid path a1 t1 a2 t2 show ?thesis
          by (simp add: wiki_create_page_C_def wiki_create_page_try_C_def Let_def d0_def d2_def)
      next
        case None2: None
        with False None valid path a1 t1 a2 t2 show ?thesis
          by (simp add: wiki_create_page_C_def wiki_create_page_try_C_def Let_def d0_def d2_def
                        prefix_exhausted_C)
      qed
    qed
  qed
qed

subsection \<open>Resolve, then update\<close>







lemma calls_of_lookups [simp]: "calls_of UPDATE_PAGE_MUTATION (map lookup_call xs) = []"
  by (induction xs) (simp_all add: calls_of_def lookup_call_def)

lemma calls_of_append [simp]: "calls_of q (xs @ ys) = calls_of q xs @ calls_of q ys"
  by (simp add: calls_of_def)

subsection \<open>Rejected requests\<close>

lemma last_rejected_Nil [simp]: "\<not> last_rejected env []"
  by (simp add: last_rejected_def)

lemma last_rejected_snoc [simp]:
  "last_rejected env (log @ [c]) = isl (graphql_request env log c)"
  by (simp add: last_rejected_def)

lemma last_rejected_single [simp]:
  "last_rejected env [c] = isl (graphql_request env [] c)"
  using last_rejected_snoc[of env "[]" c] by simp

lemma last_rejected_pair [simp]:
  "last_rejected env [b, c] = isl (graphql_request env [b] c)"
  using last_rejected_snoc[of env "[b]" c] by simp

lemma attempts_last_call:
  assumes "vs \<noteq> []" and "k = attempts ok call [] vs"
  shows "map call (take k vs) = map call (take (k - 1) vs) @ [call (vs ! (k - 1))]"
proof -
  have "0 < k" "k \<le> length vs"
    using assms attempts_pos[of vs ok call "[]"] attempts_le[of ok call "[]" vs] by simp_all
  then have "k - 1 < length vs" "Suc (k - 1) = k" by simp_all
  with take_Suc_conv_app_nth[of "k - 1" vs] show ?thesis by simp
qed

lemma rejected_not_succeeded:
  assumes no: "\<And>log v. isl (graphql_request env log (call v)) \<Longrightarrow> \<not> ok log v"
    and rej: "last_rejected env (map call (take (attempts ok call [] vs) vs))"
  shows "\<not> succeeded ok call [] vs"
proof (cases "vs = []")
  case True
  then show ?thesis by simp
next
  case False
  define k where "k = attempts ok call [] vs"
  note lc = attempts_last_call[OF False k_def]
  from rej have "isl (graphql_request env (map call (take (k - 1) vs)) (call (vs ! (k - 1))))"
    unfolding k_def[symmetric] lc by simp
  from no[OF this] attempts_spec[OF False k_def] show ?thesis by simp
qed

lemma lookup_rejected_not_found: "isl (graphql_request env log (lookup_call p)) \<Longrightarrow> \<not> lookup_finds env log p"
  by (cases "graphql_request env log (lookup_call p)") (simp_all add: lookup_finds_def found_page_def)










lemma update_lookup_loop_A_rejected:
  assumes "update_lookup_loop_A env vs i d [] = (page, d', log)" and "last_rejected env log"
  shows "\<not> truthy page"
proof -
  note tr = update_lookup_loop_A_trace[OF assms(1)]
  from tr assms(2) have "last_rejected env (map lookup_call (take (attempts (lookup_finds env) lookup_call [] vs) vs))"
    by simp
  from rejected_not_succeeded[of env lookup_call "lookup_finds env", OF lookup_rejected_not_found this] tr
  show ?thesis by simp
qed









lemma snd_callTool_A: "snd (callTool_A env name args) = snd (callTool_try_A env name args)"
  by (cases "callTool_try_A env name args") (simp add: callTool_A_def split: sum.splits)











section \<open>Properties\<close>

text \<open>
  C8. For every \<^verbatim>\<open>wiki_list_pages\<close> call (revisions A and D, whose handler is the same text)
  whose upstream listing is an array of pages: if the array is empty the result is exactly
  the text \<^verbatim>\<open>No pages found\<close> with \<^verbatim>\<open>isError: false\<close>; otherwise the result, again with
  \<^verbatim>\<open>isError: false\<close>, is one entry per page, the entries joined by a blank line, each entry
  made of the page's title, id and path and, when \<^verbatim>\<open>updatedAt\<close> is present (truthy), a
  second line with the locale-formatted time of the last update. The pages of the listing
  are objects (the schema types them as non-null).
\<close>

theorem list_pages_text:
  assumes "is_object args"
    and "graphql_request env []
           (LIST_PAGES_QUERY,
            JObj [(''orderBy'', js_or (get_prop args ''orderBy'') (JStr ''TITLE'')),
                  (''limit'', js_or (get_prop args ''limit'') (JNum 10))]) = Inr data"
    and "get_prop (get_prop data ''pages'') ''list'' = JArr pages"
    and "\<forall>page \<in> set pages. page \<noteq> JNull \<and> page \<noteq> JUndefined"
    and "handler = callTool_A \<or> handler = callTool_D"
  shows "fst (handler env ''wiki_list_pages'' args) =
         text_result
           (if pages = [] then ''No pages found''
            else js_join (NL @ NL)
                   (map (\<lambda>page.
                           ''- '' @ js_toString (get_prop page ''title'')
                           @ '' (ID: '' @ js_toString (get_prop page ''id'')
                           @ '', Path: '' @ js_toString (get_prop page ''path'') @ '')''
                           @ (if truthy (get_prop page ''updatedAt'')
                              then NL @ ''  Last Updated: ''
                                   @ toLocaleString env (get_prop page ''updatedAt'')
                              else []))
                        pages))
           False"
proof -
  have lines: "map_throw (pageLine env) pages =
        Inr (map (\<lambda>page.
                           ''- '' @ js_toString (get_prop page ''title'')
                           @ '' (ID: '' @ js_toString (get_prop page ''id'')
                           @ '', Path: '' @ js_toString (get_prop page ''path'') @ '')''
                           @ (if truthy (get_prop page ''updatedAt'')
                              then NL @ ''  Last Updated: ''
                                   @ toLocaleString env (get_prop page ''updatedAt'')
                              else [])) pages)"
    using assms(4) by (intro map_throw_total) (simp add: pageLine_object)
  note r = wiki_list_pages_data[OF assms(1) assms(2) assms(3) lines]
  have t: "truthy args" using assms(1) by (rule is_object_truthy)
  from assms(5) show ?thesis
  proof
    assume "handler = callTool_A"
    then show ?thesis using r t
      by (cases "wiki_list_pages env args []") (simp add: callTool_A_def callTool_try_A_def)
  next
    assume "handler = callTool_D"
    then show ?thesis using r t
      by (cases "wiki_list_pages env args []") (simp add: callTool_D_def callTool_try_D_def)
  qed
qed

theorem list_pages_text_witness:
  "fst (callTool_A
          (test_env (listing_server
             [JObj [(''id'', JNum 1), (''path'', JStr ''home''), (''title'', JStr ''Home''),
                    (''updatedAt'', JStr ''2024-01-01'')],
              JObj [(''id'', JNum 2), (''path'', JStr ''docs/a''), (''title'', JStr ''A'')]]))
          ''wiki_list_pages'' (JObj []))
   = text_result (''- Home (ID: 1, Path: home)'' @ NL @ ''  Last Updated: 2024-01-01'' @ NL @ NL
                  @ ''- A (ID: 2, Path: docs/a)'') False"
  using list_pages_text
    [of "JObj []"
        "test_env (listing_server
             [JObj [(''id'', JNum 1), (''path'', JStr ''home''), (''title'', JStr ''Home''),
                    (''updatedAt'', JStr ''2024-01-01'')],
              JObj [(''id'', JNum 2), (''path'', JStr ''docs/a''), (''title'', JStr ''A'')]])"
        "JObj [(''pages'', JObj [(''list'', JArr
             [JObj [(''id'', JNum 1), (''path'', JStr ''home''), (''title'', JStr ''Home''),
                    (''updatedAt'', JStr ''2024-01-01'')],
              JObj [(''id'', JNum 2), (''path'', JStr ''docs/a''), (''title'', JStr ''A'')]])])]"
        "[JObj [(''id'', JNum 1), (''path'', JStr ''home''), (''title'', JStr ''Home''),
                    (''updatedAt'', JStr ''2024-01-01'')],
              JObj [(''id'', JNum 2), (''path'', JStr ''docs/a''), (''title'', JStr ''A'')]]"
        callTool_A]
  by (simp add: test_env_def listing_server_def show_int_def show_nat_digit digit_char_def)

text \<open>
  C3 (as amended). In revision A a lookup by path (\<^verbatim>\<open>wiki_get_page\<close> with no truthy id and a
  non-empty path) and a creation (\<^verbatim>\<open>wiki_create_page\<close>) issue their GraphQL calls on the
  variations of the path in the order of \<^verbatim>\<open>generatePathVariations\<close>, one call per variation,
  and stop at the first success: the calls made are the first \<open>k\<close> variations, every attempt
  before the last failed, fewer than all are made only when the last made succeeded, and the
  result is an error exactly when the last attempt failed. The normalized path (leading
  slash removed) is always one of the variations, but it is the first only when it begins
  with a two-letter language segment; otherwise the first two calls use the normalized path
  prefixed with \<^verbatim>\<open>ja/\<close> and \<^verbatim>\<open>/ja/\<close>, and the normalized path comes third.
\<close>

theorem path_variations_in_order:
  assumes "get_prop args ''path'' = JStr p"
    and "vs = generatePathVariations p"
  shows
    "vs = (if hasLangPrefix (normalizePath p) then [normalizePath p]
           else [''ja/'' @ normalizePath p, ''/ja/'' @ normalizePath p, normalizePath p])
          @ (if startsWith_slash p then [] else [''/'' @ p])
          @ (if hasLangPrefix (normalizePath p) then []
             else [''en/'' @ normalizePath p, ''/en/'' @ normalizePath p])
     \<and> (\<not> truthy (get_prop args ''id'') \<and> p \<noteq> [] \<longrightarrow>
          (\<exists>k. 0 < k \<and> k \<le> length vs
             \<and> snd (callTool_A env ''wiki_get_page'' args) = map lookup_call (take k vs)
             \<and> (\<forall>j<k - 1. \<not> lookup_finds env (map lookup_call (take j vs)) (vs ! j))
             \<and> isError (fst (callTool_A env ''wiki_get_page'' args))
                 = (\<not> lookup_finds env (map lookup_call (take (k - 1) vs)) (vs ! (k - 1)))
             \<and> (k < length vs \<longrightarrow> \<not> isError (fst (callTool_A env ''wiki_get_page'' args)))))
     \<and> (isCreatePageArgs args \<longrightarrow>
          (\<exists>k. 0 < k \<and> k \<le> length vs
             \<and> snd (callTool_A env ''wiki_create_page'' args) = map (create_call_A args) (take k vs)
             \<and> (\<forall>j<k - 1. \<not> create_accepted_A env args (map (create_call_A args) (take j vs)) (vs ! j))
             \<and> isError (fst (callTool_A env ''wiki_create_page'' args))
                 = (\<not> create_accepted_A env args (map (create_call_A args) (take (k - 1) vs)) (vs ! (k - 1)))
             \<and> (k < length vs \<longrightarrow> \<not> isError (fst (callTool_A env ''wiki_create_page'' args)))))"
proof -
  have ne: "vs \<noteq> []" using assms(2) generatePathVariations_nonempty by simp
  have shape: "vs = (if hasLangPrefix (normalizePath p) then [normalizePath p]
           else [''ja/'' @ normalizePath p, ''/ja/'' @ normalizePath p, normalizePath p])
          @ (if startsWith_slash p then [] else [''/'' @ p])
          @ (if hasLangPrefix (normalizePath p) then []
             else [''en/'' @ normalizePath p, ''/en/'' @ normalizePath p])"
    unfolding assms(2) by (rule generatePathVariations_eq)
  have get: "\<exists>k. 0 < k \<and> k \<le> length vs
             \<and> snd (callTool_A env ''wiki_get_page'' args) = map lookup_call (take k vs)
             \<and> (\<forall>j<k - 1. \<not> lookup_finds env (map lookup_call (take j vs)) (vs ! j))
             \<and> isError (fst (callTool_A env ''wiki_get_page'' args))
                 = (\<not> lookup_finds env (map lookup_call (take (k - 1) vs)) (vs ! (k - 1)))
             \<and> (k < length vs \<longrightarrow> \<not> isError (fst (callTool_A env ''wiki_get_page'' args)))"
    if "\<not> truthy (get_prop args ''id'')" "p \<noteq> []"
  proof -
    define k where "k = attempts (lookup_finds env) lookup_call [] vs"
    have run: "snd (callTool_A env ''wiki_get_page'' args) = map lookup_call (take k vs)"
      "isError (fst (callTool_A env ''wiki_get_page'' args)) = (\<not> succeeded (lookup_finds env) lookup_call [] vs)"
      using wiki_get_page_A_by_path[OF that(1) assms(1) that(2), of env]
      unfolding k_def assms(2) by simp_all
    note sp = attempts_spec[OF ne k_def]
    show ?thesis
      by (rule exI[of _ k]) (use run sp in auto)
  qed
  have create: "\<exists>k. 0 < k \<and> k \<le> length vs
             \<and> snd (callTool_A env ''wiki_create_page'' args) = map (create_call_A args) (take k vs)
             \<and> (\<forall>j<k - 1. \<not> create_accepted_A env args (map (create_call_A args) (take j vs)) (vs ! j))
             \<and> isError (fst (callTool_A env ''wiki_create_page'' args))
                 = (\<not> create_accepted_A env args (map (create_call_A args) (take (k - 1) vs)) (vs ! (k - 1)))
             \<and> (k < length vs \<longrightarrow> \<not> isError (fst (callTool_A env ''wiki_create_page'' args)))"
    if "isCreatePageArgs args"
  proof -
    define k where "k = attempts (create_accepted_A env args) (create_call_A args) [] vs"
    have run: "snd (callTool_A env ''wiki_create_page'' args) = map (create_call_A args) (take k vs)"
      "isError (fst (callTool_A env ''wiki_create_page'' args))
         = (\<not> succeeded (create_accepted_A env args) (create_call_A args) [] vs)"
      using wiki_create_page_A_calls[OF that assms(1), of env]
      unfolding k_def assms(2) by simp_all
    note sp = attempts_spec[OF ne k_def]
    show ?thesis
      by (rule exI[of _ k]) (use run sp in auto)
  qed
  from shape get create show ?thesis by blast
qed


theorem path_variations_in_order_witness:
  "snd (callTool_A (test_env home_server) ''wiki_get_page''
          (JObj [(''path'', JStr ''home''), (''title'', JStr ''Home''), (''content'', JStr ''Welcome'')]))
     = [lookup_call ''ja/home'', lookup_call ''/ja/home'', lookup_call ''home'']
   \<and> \<not> isError (fst (callTool_A (test_env home_server) ''wiki_get_page''
          (JObj [(''path'', JStr ''home''), (''title'', JStr ''Home''), (''content'', JStr ''Welcome'')])))
   \<and> snd (callTool_A (test_env home_server) ''wiki_create_page''
          (JObj [(''path'', JStr ''home''), (''title'', JStr ''Home''), (''content'', JStr ''Welcome'')]))
     = [create_call_A
          (JObj [(''path'', JStr ''home''), (''title'', JStr ''Home''), (''content'', JStr ''Welcome'')])
          ''ja/home'',
        create_call_A
          (JObj [(''path'', JStr ''home''), (''title'', JStr ''Home''), (''content'', JStr ''Welcome'')])
          ''/ja/home'',
        create_call_A
          (JObj [(''path'', JStr ''home''), (''title'', JStr ''Home''), (''content'', JStr ''Welcome'')])
          ''home'']
   \<and> \<not> isError (fst (callTool_A (test_env home_server) ''wiki_create_page''
          (JObj [(''path'', JStr ''home''), (''title'', JStr ''Home''), (''content'', JStr ''Welcome'')])))"
proof -
  define args where
    "args = JObj [(''path'', JStr ''home''), (''title'', JStr ''Home''), (''content'', JStr ''Welcome'')]"
  define env where "env = test_env home_server"
  define vs where "vs = [''ja/home'', ''/ja/home'', ''home'', ''/home'', ''en/home'', ''/en/home'']"
  have path: "get_prop args ''path'' = JStr ''home''" by (simp add: args_def)
  have gen: "vs = generatePathVariations ''home''"
    by (simp add: vs_def generatePathVariations_eq normalizePath_def)
  have noid: "\<not> truthy (get_prop args ''id'')" by (simp add: args_def)
  have valid: "isCreatePageArgs args" by (simp add: args_def isCreatePageArgs_def)
  have finds: "\<And>log p. lookup_finds env log p = (p = ''home'')"
    by (simp add: env_def lookup_finds_def found_page_def lookup_call_def test_env_def home_server_def
                  guarded_def js_and_def page7_def)
  have accepts: "\<And>log p. create_accepted_A env args log p = (p = ''home'')"
    by (simp add: env_def create_accepted_A_def create_call_A_def create_params_A_def test_env_def
                  home_server_def create_succeeded_A_def guarded_def js_and_def ok7_def page7_def)
  have nth: "vs ! 0 = ''ja/home''" "vs ! 1 = ''/ja/home''" "vs ! 2 = ''home''" "length vs = 6"
    by (simp_all add: vs_def)
  note inst = path_variations_in_order[OF path gen, of env]
  have three: "k = 3"
    if k: "0 < k" "k \<le> length vs"
      and before: "\<forall>j<k - 1. vs ! j \<noteq> ''home''"
      and err: "e = (vs ! (k - 1) \<noteq> ''home'')"
      and early: "k < length vs \<longrightarrow> \<not> e"
    for k e
  proof -
    have "\<not> k < 3"
    proof
      assume "k < 3"
      with k have "k = 1 \<or> k = 2" by auto
      with err early nth show False by auto
    qed
    moreover have "\<not> 3 < k"
    proof
      assume "3 < k"
      then have "2 < k - 1" by simp
      with before nth show False by blast
    qed
    ultimately show ?thesis by simp
  qed
  from inst[THEN conjunct2, THEN conjunct1] noid obtain k where
    k: "0 < k" "k \<le> length vs"
       "snd (callTool_A env ''wiki_get_page'' args) = map lookup_call (take k vs)"
       "\<forall>j<k - 1. \<not> lookup_finds env (map lookup_call (take j vs)) (vs ! j)"
       "isError (fst (callTool_A env ''wiki_get_page'' args))
          = (\<not> lookup_finds env (map lookup_call (take (k - 1) vs)) (vs ! (k - 1)))"
       "k < length vs \<longrightarrow> \<not> isError (fst (callTool_A env ''wiki_get_page'' args))"
    by auto
  from three[OF k(1,2)] k(4,5,6) have k3: "k = 3" by (simp add: finds)
  from inst[THEN conjunct2, THEN conjunct2] valid obtain m where
    m: "0 < m" "m \<le> length vs"
       "snd (callTool_A env ''wiki_create_page'' args) = map (create_call_A args) (take m vs)"
       "\<forall>j<m - 1. \<not> create_accepted_A env args (map (create_call_A args) (take j vs)) (vs ! j)"
       "isError (fst (callTool_A env ''wiki_create_page'' args))
          = (\<not> create_accepted_A env args (map (create_call_A args) (take (m - 1) vs)) (vs ! (m - 1)))"
       "m < length vs \<longrightarrow> \<not> isError (fst (callTool_A env ''wiki_create_page'' args))"
    by auto
  from three[OF m(1,2)] m(4,5,6) have m3: "m = 3" by (simp add: accepts)
  have t3: "take 3 vs = [''ja/home'', ''/ja/home'', ''home'']" by (simp add: vs_def)
  from k(3,5) m(3,5) k3 m3 t3 nth show ?thesis
    unfolding args_def[symmetric] env_def[symmetric] by (simp add: finds accepts)
qed

theorem normalized_path_first_counterexample:
  "snd (callTool_A (test_env empty_server) ''wiki_get_page'' (JObj [(''path'', JStr ''home'')]))
     = [lookup_call ''ja/home'', lookup_call ''/ja/home'', lookup_call ''home'', lookup_call ''/home'',
        lookup_call ''en/home'', lookup_call ''/en/home'']
   \<and> hd (snd (callTool_A (test_env empty_server) ''wiki_get_page'' (JObj [(''path'', JStr ''home'')])))
       \<noteq> lookup_call (normalizePath ''home'')
   \<and> snd (callTool_A (test_env accepting_server) ''wiki_create_page''
            (JObj [(''path'', JStr ''home''), (''title'', JStr ''T''), (''content'', JStr ''C'')]))
     = [create_call_A (JObj [(''path'', JStr ''home''), (''title'', JStr ''T''), (''content'', JStr ''C'')])
          ''ja/home'']
   \<and> ''ja/home'' \<noteq> normalizePath ''home''"
proof -
  have vs: "generatePathVariations ''home''
              = [''ja/home'', ''/ja/home'', ''home'', ''/home'', ''en/home'', ''/en/home'']"
    by (simp add: generatePathVariations_eq normalizePath_def)
  have nf: "\<And>log p. \<not> lookup_finds (test_env empty_server) log p"
    by (simp add: lookup_finds_def found_page_def test_env_def empty_server_def guarded_def js_and_def)
  have g: "snd (callTool_A (test_env empty_server) ''wiki_get_page'' (JObj [(''path'', JStr ''home'')]))
     = [lookup_call ''ja/home'', lookup_call ''/ja/home'', lookup_call ''home'', lookup_call ''/home'',
        lookup_call ''en/home'', lookup_call ''/en/home'']"
    using wiki_get_page_A_by_path[of "JObj [(''path'', JStr ''home'')]" "''home''" "test_env empty_server"]
    by (simp add: vs nf)
  have acc: "\<And>log args p. create_accepted_A (test_env accepting_server) args log p"
    by (simp add: create_accepted_A_def test_env_def accepting_server_def create_succeeded_A_def
                  guarded_def js_and_def ok7_def page7_def)
  have c: "snd (callTool_A (test_env accepting_server) ''wiki_create_page''
            (JObj [(''path'', JStr ''home''), (''title'', JStr ''T''), (''content'', JStr ''C'')]))
     = [create_call_A (JObj [(''path'', JStr ''home''), (''title'', JStr ''T''), (''content'', JStr ''C'')])
          ''ja/home'']"
    using wiki_create_page_A_calls
            [of "JObj [(''path'', JStr ''home''), (''title'', JStr ''T''), (''content'', JStr ''C'')]"
                "''home''" "test_env accepting_server"]
    by (simp add: vs acc isCreatePageArgs_def)
  have n: "''ja/home'' \<noteq> normalizePath ''home''" by (simp add: normalizePath_def)
  have h: "lookup_call ''ja/home'' \<noteq> lookup_call (normalizePath ''home'')"
    by (simp add: lookup_call_def normalizePath_def)
  from g c n h show ?thesis by simp
qed

text \<open>
  C4 (as amended). In revisions A, B and C \<^verbatim>\<open>normalizePath\<close> removes exactly one leading
  slash and changes nothing else, and the lookup by path of revision B makes one call, with
  the normalized path: called with \<^verbatim>\<open>/home\<close> or with \<^verbatim>\<open>home\<close> it looks up \<^verbatim>\<open>home\<close>. In
  revision D (\<^verbatim>\<open>part_000\<close>) \<^verbatim>\<open>normalizePath\<close> instead leaves a path that begins with a slash
  as it is and puts a slash before any other, and the lookup by path makes one call with
  that path: called with \<^verbatim>\<open>/home\<close> or with \<^verbatim>\<open>home\<close> it looks up \<^verbatim>\<open>/home\<close>.
\<close>

theorem normalizePath_lookup_key:
  "normalizePath (''/'' @ p) = p
   \<and> (\<not> startsWith_slash p \<longrightarrow> normalizePath p = p)
   \<and> normalizePath_D (''/'' @ p) = ''/'' @ p
   \<and> (\<not> startsWith_slash p \<longrightarrow> normalizePath_D p = ''/'' @ p)
   \<and> (\<not> truthy (get_prop args ''id'') \<and> get_prop args ''path'' = JStr q \<and> q \<noteq> [] \<longrightarrow>
        snd (wiki_get_page_B env args []) = [lookup_call (normalizePath q)]
        \<and> snd (callTool_D env ''wiki_get_page'' args) = [lookup_call (normalizePath_D q)])"
  using wiki_get_page_B_by_path[of args q env] wiki_get_page_D_by_path[of args q env]
  by (simp add: normalizePath_def normalizePath_D_def substring1_def)

theorem normalizePath_lookup_key_witness:
  "snd (wiki_get_page_B (test_env empty_server) (JObj [(''path'', JStr ''/home'')]) [])
     = [lookup_call ''home'']
   \<and> snd (wiki_get_page_B (test_env empty_server) (JObj [(''path'', JStr ''home'')]) [])
     = [lookup_call ''home'']
   \<and> snd (callTool_D (test_env empty_server) ''wiki_get_page'' (JObj [(''path'', JStr ''/home'')]))
     = [lookup_call ''/home'']
   \<and> snd (callTool_D (test_env empty_server) ''wiki_get_page'' (JObj [(''path'', JStr ''home'')]))
     = [lookup_call ''/home'']"
  using normalizePath_lookup_key
          [of "''home''" "JObj [(''path'', JStr ''/home'')]" "''/home''" "test_env empty_server"]
        normalizePath_lookup_key
          [of "''home''" "JObj [(''path'', JStr ''home'')]" "''home''" "test_env empty_server"]
  by simp

theorem normalizePath_strips_counterexample:
  "normalizePath_D ''home'' = ''/home''
   \<and> normalizePath_D ''/home'' = ''/home''
   \<and> snd (callTool_D (test_env accepting_server) ''wiki_get_page'' (JObj [(''path'', JStr ''home'')]))
       = [(GET_PAGE_BY_PATH_QUERY, JObj [(''path'', JStr ''/home'')])]
   \<and> snd (callTool_D (test_env accepting_server) ''wiki_get_page'' (JObj [(''path'', JStr ''/home'')]))
       = [(GET_PAGE_BY_PATH_QUERY, JObj [(''path'', JStr ''/home'')])]
   \<and> ''/home'' \<noteq> ''home''"
  by (simp add: normalizePath_D_def callTool_D_def callTool_try_D_def wiki_get_page_D_def
                wiki_get_page_try_D_def isGetPageArgs_def request_def test_env_def accepting_server_def
                prop_strict_def page7_def)

text \<open>
  C7 (as amended). For every \<^verbatim>\<open>wiki_get_page\<close> call of revisions A and D whose arguments hold
  an id that is a number other than 0, the handler makes exactly one call, the lookup by that
  id, and no lookup by path, whatever the server answers and whether or not a path is given
  too. (The branch is taken on the truthiness of \<^verbatim>\<open>args.id\<close>: with the id 0 it is not taken.)
\<close>

theorem get_page_by_id_once:
  assumes "get_prop args ''id'' = JNum n" and "n \<noteq> 0"
    and "handler = callTool_A \<or> handler = callTool_D"
  shows "snd (handler env ''wiki_get_page'' args) = [(GET_PAGE_BY_ID_QUERY, JObj [(''id'', JNum n)])]
         \<and> length (calls_of GET_PAGE_BY_ID_QUERY (snd (handler env ''wiki_get_page'' args))) = 1
         \<and> calls_of GET_PAGE_BY_PATH_QUERY (snd (handler env ''wiki_get_page'' args)) = []"
  using assms wiki_get_page_A_by_id[of args n env] wiki_get_page_D_by_id[of args n env]
  by (auto simp: calls_of_def)

theorem get_page_by_id_once_witness:
  "snd (callTool_A (test_env empty_server) ''wiki_get_page'' (JObj [(''id'', JNum 15), (''path'', JStr ''home'')]))
     = [(GET_PAGE_BY_ID_QUERY, JObj [(''id'', JNum 15)])]
   \<and> snd (callTool_D (test_env accepting_server) ''wiki_get_page'' (JObj [(''id'', JNum 15)]))
     = [(GET_PAGE_BY_ID_QUERY, JObj [(''id'', JNum 15)])]"
  using get_page_by_id_once
          [of "JObj [(''id'', JNum 15), (''path'', JStr ''home'')]" 15 callTool_A "test_env empty_server"]
        get_page_by_id_once
          [of "JObj [(''id'', JNum 15)]" 15 callTool_D "test_env accepting_server"]
  by simp

theorem get_page_by_id_counterexample:
  "calls_of GET_PAGE_BY_ID_QUERY
     (snd (callTool_D (test_env accepting_server) ''wiki_get_page''
             (JObj [(''id'', JNum 0), (''path'', JStr ''home'')]))) = []
   \<and> calls_of GET_PAGE_BY_PATH_QUERY
     (snd (callTool_D (test_env accepting_server) ''wiki_get_page''
             (JObj [(''id'', JNum 0), (''path'', JStr ''home'')])))
       = [(GET_PAGE_BY_PATH_QUERY, JObj [(''path'', JStr ''/home'')])]
   \<and> snd (callTool_A (test_env accepting_server) ''wiki_get_page''
             (JObj [(''id'', JNum 0), (''path'', JStr ''home'')]))
       = [(GET_PAGE_BY_PATH_QUERY, JObj [(''path'', JStr ''ja/home'')])]"
proof -
  have d: "snd (callTool_D (test_env accepting_server) ''wiki_get_page''
             (JObj [(''id'', JNum 0), (''path'', JStr ''home'')]))
       = [(GET_PAGE_BY_PATH_QUERY, JObj [(''path'', JStr ''/home'')])]"
    using wiki_get_page_D_by_path
            [of "JObj [(''id'', JNum 0), (''path'', JStr ''home'')]" "''home''" "test_env accepting_server"]
    by (simp add: normalizePath_D_def lookup_call_def)
  have vs: "generatePathVariations ''home''
              = [''ja/home'', ''/ja/home'', ''home'', ''/home'', ''en/home'', ''/en/home'']"
    by (simp add: generatePathVariations_eq normalizePath_def)
  have f: "\<And>log p. lookup_finds (test_env accepting_server) log p"
    by (simp add: lookup_finds_def found_page_def test_env_def accepting_server_def guarded_def
                  js_and_def page7_def)
  have a: "snd (callTool_A (test_env accepting_server) ''wiki_get_page''
             (JObj [(''id'', JNum 0), (''path'', JStr ''home'')]))
       = [(GET_PAGE_BY_PATH_QUERY, JObj [(''path'', JStr ''ja/home'')])]"
    using wiki_get_page_A_by_path
            [of "JObj [(''id'', JNum 0), (''path'', JStr ''home'')]" "''home''" "test_env accepting_server"]
    by (simp add: vs f lookup_call_def)
  from d a show ?thesis by (simp add: calls_of_def)
qed

text \<open>
  C10. For every \<^verbatim>\<open>wiki_get_page\<close> call of revision A whose arguments hold the id 0 and no
  path, the validation of the arguments passes, the handler makes no call at all, and the
  result is an error: the text opens with \<^verbatim>\<open>Error fetching page: Either id or path must be
  provided\<close> and \<^verbatim>\<open>isError\<close> is true.
\<close>

theorem get_page_id_zero:
  assumes "get_prop args ''id'' = JNum 0" and "\<not> has_prop ''path'' args"
  shows "isGetPageArgs args
         \<and> snd (callTool_A env ''wiki_get_page'' args) = []
         \<and> isError (fst (callTool_A env ''wiki_get_page'' args))
         \<and> prefix ''Error fetching page: Either id or path must be provided''
                  (result_text (fst (callTool_A env ''wiki_get_page'' args)))"
proof -
  have v: "isGetPageArgs args" "truthy args"
    using get_prop_number_object[OF assms(1)] by (simp_all add: isGetPageArgs_def)
  have np: "get_prop args ''path'' = JUndefined"
    using assms(2) by (cases args) (auto split: option.splits)
  show ?thesis using assms(1) v np
    by (simp add: callTool_A_def callTool_try_A_def wiki_get_page_A_def wiki_get_page_try_A_def
                  catch_result_def new_Error_def)
qed

theorem get_page_id_zero_witness:
  "isGetPageArgs (JObj [(''id'', JNum 0)])
   \<and> snd (callTool_A (test_env accepting_server) ''wiki_get_page'' (JObj [(''id'', JNum 0)])) = []
   \<and> isError (fst (callTool_A (test_env accepting_server) ''wiki_get_page'' (JObj [(''id'', JNum 0)])))"
  using get_page_id_zero[of "JObj [(''id'', JNum 0)]" "test_env accepting_server"]
  by simp

text \<open>
  C1. For every \<^verbatim>\<open>wiki_update_page\<close> call of revisions A and C whose update mutation is
  answered with a response that signals failure (\<^verbatim>\<open>responseResult\<close> there, \<^verbatim>\<open>succeeded\<close>
  false): if the message is a string that matches the known defect signature, that is,
  contains \<^verbatim>\<open>Cannot read properties of undefined (reading 'map')\<close>, the handler's result has
  \<^verbatim>\<open>isError: false\<close>; for every other message (any other string, or none) the result has
  \<^verbatim>\<open>isError: true\<close>. In particular a message that is exactly the signature gives
  \<^verbatim>\<open>isError: false\<close>. (The schema types the message as a string or null.)
\<close>

theorem update_failure_masking:
  assumes "handler = wiki_update_page_A \<or> handler = wiki_update_page_C"
    and "update_response env (snd (handler env args [])) = Some data"
    and "failed_message data = Some msg"
  shows "(\<forall>m. msg = JStr m \<longrightarrow>
            (\<exists>r. fst (handler env args []) = Inr r \<and> one_text_block r
                  \<and> isError r = (\<not> str_includes m map_of_undefined)))
         \<and> (msg = JStr map_of_undefined \<longrightarrow>
            (\<exists>r. fst (handler env args []) = Inr r \<and> \<not> isError r))
         \<and> (msg = JNull \<or> msg = JUndefined \<longrightarrow>
            (\<exists>r. fst (handler env args []) = Inr r \<and> one_text_block r \<and> isError r))"
proof -
  obtain d where run: "fst (handler env args [])
           = Inr (case update_result_A env data d of
                    Inl error \<Rightarrow> catch_result env ''Error updating page'' ''UPDATE PAGE ERROR'' error
                  | Inr r \<Rightarrow> r)"
    using assms(1,2) wiki_update_page_A_response[of env args data]
      wiki_update_page_C_response[of env args data] by blast
  have str: "\<exists>r. fst (handler env args []) = Inr r \<and> one_text_block r
                  \<and> isError r = (\<not> str_includes m map_of_undefined)" if "msg = JStr m" for m
  proof -
    from assms(3) that have "failed_message data = Some (JStr m)" by simp
    from update_result_A_failed_string[OF this, of env d] run show ?thesis by auto
  qed
  have self: "str_includes map_of_undefined map_of_undefined"
    unfolding str_includes_iff by (intro exI[of _ "[]"]) simp
  have exact: "\<exists>r. fst (handler env args []) = Inr r \<and> \<not> isError r" if "msg = JStr map_of_undefined"
    using str[OF that] self by auto
  have absent: "\<exists>r. fst (handler env args []) = Inr r \<and> one_text_block r \<and> isError r"
    if "msg = JNull \<or> msg = JUndefined"
    using update_result_A_failed_absent[OF assms(3) that, of env d] run by auto
  from str exact absent show ?thesis by blast
qed

theorem update_failure_masking_witness:
  "(\<exists>r. fst (wiki_update_page_C (test_env (update_server page7 (failure (JStr map_of_undefined))))
                (JObj [(''id'', JNum 7), (''title'', JStr ''New title'')]) []) = Inr r
        \<and> \<not> isError r)
   \<and> (\<exists>r. fst (wiki_update_page_A (test_env (update_server page7 (failure (JStr ''Forbidden''))))
                (JObj [(''id'', JNum 7), (''title'', JStr ''New title'')]) []) = Inr r
        \<and> isError r)"
proof -
  define args where "args = JObj [(''id'', JNum 7), (''title'', JStr ''New title'')]"
  have id: "get_prop args ''id'' = JNum 7" by (simp add: args_def)
  have resp: "\<And>handler msg. handler = wiki_update_page_A \<or> handler = wiki_update_page_C \<Longrightarrow>
     update_response (test_env (update_server page7 (failure msg)))
        (snd (handler (test_env (update_server page7 (failure msg))) args []))
       = Some (JObj [(''pages'', JObj [(''singleByPath'', page7), (''update'', failure msg)])])"
    using wiki_update_page_by_id_calls[OF id]
    by (auto simp: update_response_def test_env_def update_server_def)
  have fm: "\<And>msg. failed_message (JObj [(''pages'', JObj [(''singleByPath'', page7), (''update'', failure msg)])])
              = Some msg"
    by (simp add: failed_message_def guarded_def js_and_def failure_def)
  have no: "\<not> str_includes ''Forbidden'' map_of_undefined"
    by (simp add: map_of_undefined_def)
  have c: "\<exists>r. fst (wiki_update_page_C (test_env (update_server page7 (failure (JStr map_of_undefined))))
                args []) = Inr r \<and> \<not> isError r"
    using update_failure_masking
            [where handler = wiki_update_page_C
               and env = "test_env (update_server page7 (failure (JStr map_of_undefined)))"
               and args = args
               and data = "JObj [(''pages'', JObj [(''singleByPath'', page7),
                                                   (''update'', failure (JStr map_of_undefined))])]"
               and msg = "JStr map_of_undefined"]
          resp[of wiki_update_page_C "JStr map_of_undefined"] fm[of "JStr map_of_undefined"]
    by simp
  have a: "\<exists>r. fst (wiki_update_page_A (test_env (update_server page7 (failure (JStr ''Forbidden''))))
                args []) = Inr r \<and> isError r"
    using update_failure_masking
            [where handler = wiki_update_page_A
               and env = "test_env (update_server page7 (failure (JStr ''Forbidden'')))"
               and args = args
               and data = "JObj [(''pages'', JObj [(''singleByPath'', page7),
                                                   (''update'', failure (JStr ''Forbidden''))])]"
               and msg = "JStr ''Forbidden''"]
          resp[of wiki_update_page_A "JStr ''Forbidden''"] fm[of "JStr ''Forbidden''"] no
    by auto
  from c a show ?thesis unfolding args_def by simp
qed

text \<open>
  C9. The test that masks a failed update (revisions A and C) is a containment test, not an
  equality: whenever the message of the failed update is a string in which
  \<^verbatim>\<open>Cannot read properties of undefined (reading 'map')\<close> occurs, with any text before and
  after it, the handler's result has \<^verbatim>\<open>isError: false\<close>.
\<close>

theorem update_masking_is_containment:
  assumes "handler = wiki_update_page_A \<or> handler = wiki_update_page_C"
    and "update_response env (snd (handler env args [])) = Some data"
    and "failed_message data = Some (JStr (before @ map_of_undefined @ after))"
  shows "\<exists>r. fst (handler env args []) = Inr r \<and> one_text_block r \<and> \<not> isError r"
proof -
  obtain d where run: "fst (handler env args [])
           = Inr (case update_result_A env data d of
                    Inl error \<Rightarrow> catch_result env ''Error updating page'' ''UPDATE PAGE ERROR'' error
                  | Inr r \<Rightarrow> r)"
    using assms(1,2) wiki_update_page_A_response[of env args data]
      wiki_update_page_C_response[of env args data] by blast
  have inc: "str_includes (before @ map_of_undefined @ after) map_of_undefined"
    unfolding str_includes_iff by blast
  from update_result_A_failed_string[OF assms(3), of env d] run inc show ?thesis by auto
qed

theorem update_masking_is_containment_witness:
  "\<exists>r. fst (wiki_update_page_A
              (test_env (update_server page7
                 (failure (JStr (''TypeError: '' @ map_of_undefined @ '' at PageResolver'')))))
              (JObj [(''id'', JNum 7), (''content'', JStr ''text'')]) []) = Inr r
       \<and> one_text_block r \<and> \<not> isError r"
proof -
  define args where "args = JObj [(''id'', JNum 7), (''content'', JStr ''text'')]"
  define msg where "msg = JStr (''TypeError: '' @ map_of_undefined @ '' at PageResolver'')"
  have id: "get_prop args ''id'' = JNum 7" by (simp add: args_def)
  have resp: "update_response (test_env (update_server page7 (failure msg)))
        (snd (wiki_update_page_A (test_env (update_server page7 (failure msg))) args []))
       = Some (JObj [(''pages'', JObj [(''singleByPath'', page7), (''update'', failure msg)])])"
    using wiki_update_page_by_id_calls(1)[OF id]
    by (simp add: update_response_def test_env_def update_server_def)
  have fm: "failed_message (JObj [(''pages'', JObj [(''singleByPath'', page7), (''update'', failure msg)])])
              = Some (JStr (''TypeError: '' @ map_of_undefined @ '' at PageResolver''))"
    by (simp add: failed_message_def guarded_def js_and_def failure_def msg_def)
  show ?thesis
    using update_masking_is_containment
            [where handler = wiki_update_page_A
               and env = "test_env (update_server page7 (failure msg))"
               and args = args
               and data = "JObj [(''pages'', JObj [(''singleByPath'', page7), (''update'', failure msg)])]"
               and before = "''TypeError: ''" and after = "'' at PageResolver''"]
          resp fm
    unfolding args_def msg_def by simp
qed

text \<open>
  C6 (as amended). For every \<^verbatim>\<open>wiki_create_page\<close> call of revisions A and C in which every
  attempted path variant fails, the handler returns an error result (\<^verbatim>\<open>isError: true\<close>) whose
  text opens with \<^verbatim>\<open>Failed to create page after multiple attempts\<close>, however many variants
  were tried: all the variations of the path in revision A, which is one variation when the
  path begins with a slash followed by a two-letter language segment; the normalized path
  and, unless the path begins with a slash, the path with a slash put before it in revision
  C, which is one variant when the path begins with a slash.
\<close>

theorem create_exhausted_message:
  assumes "isCreatePageArgs args"
    and "get_prop args ''path'' = JStr p"
    and "vs = generatePathVariations p"
  shows
    "isError (fst (callTool_A env ''wiki_create_page'' args))
       = (\<forall>j<length vs. \<not> create_accepted_A env args (map (create_call_A args) (take j vs)) (vs ! j))
     \<and> (isError (fst (callTool_A env ''wiki_create_page'' args)) \<longrightarrow>
          snd (callTool_A env ''wiki_create_page'' args) = map (create_call_A args) vs
          \<and> prefix ''Failed to create page after multiple attempts''
                   (result_text (fst (callTool_A env ''wiki_create_page'' args))))
     \<and> (startsWith_slash p \<and> hasLangPrefix (normalizePath p) \<longrightarrow> length vs = 1)
     \<and> (\<exists>r. fst (wiki_create_page_C env args []) = Inr r
           \<and> isError r = (\<not> create_accepted_C env args [] (normalizePath p)
                           \<and> (startsWith_slash p
                               \<or> \<not> create_accepted_C env args [create_call_C args (normalizePath p)] (''/'' @ p)))
           \<and> (isError r \<longrightarrow>
                snd (wiki_create_page_C env args [])
                  = create_call_C args (normalizePath p)
                    # (if startsWith_slash p then [] else [create_call_C args (''/'' @ p)])
                \<and> prefix ''Failed to create page after multiple attempts'' (result_text r)))"
proof -
  note a = wiki_create_page_A_calls[OF assms(1,2), of env]
  have err: "isError (fst (callTool_A env ''wiki_create_page'' args))
       = (\<forall>j<length vs. \<not> create_accepted_A env args (map (create_call_A args) (take j vs)) (vs ! j))"
    using a succeeded_iff[of "create_accepted_A env args" "create_call_A args" "[]" vs]
    by (simp add: assms(3))
  have all: "snd (callTool_A env ''wiki_create_page'' args) = map (create_call_A args) vs
          \<and> prefix ''Failed to create page after multiple attempts''
                   (result_text (fst (callTool_A env ''wiki_create_page'' args)))"
    if e: "isError (fst (callTool_A env ''wiki_create_page'' args))"
  proof -
    from a e have ns: "\<not> succeeded (create_accepted_A env args) (create_call_A args) [] vs"
      by (simp add: assms(3))
    from attempts_all[OF ns] a have l: "snd (callTool_A env ''wiki_create_page'' args) = map (create_call_A args) vs"
      by (simp add: assms(3))
    from a e have "prefix create_exhausted_text_A (result_text (fst (callTool_A env ''wiki_create_page'' args)))"
      by simp
    then obtain t where "result_text (fst (callTool_A env ''wiki_create_page'' args)) = create_exhausted_text_A @ t"
      by (auto simp: prefix_def)
    with prefix_exhausted_A[of t] l show ?thesis by simp
  qed
  have one: "startsWith_slash p \<and> hasLangPrefix (normalizePath p) \<longrightarrow> length vs = 1"
    by (simp add: assms(3) generatePathVariations_eq)
  from err all one wiki_create_page_C_calls[OF assms(1,2), of env] show ?thesis by blast
qed

theorem create_exhausted_message_witness:
  "isError (fst (callTool_A (test_env empty_server) ''wiki_create_page''
      (JObj [(''path'', JStr ''/en/guide''), (''title'', JStr ''Guide''), (''content'', JStr ''Text'')])))
   \<and> snd (callTool_A (test_env empty_server) ''wiki_create_page''
      (JObj [(''path'', JStr ''/en/guide''), (''title'', JStr ''Guide''), (''content'', JStr ''Text'')]))
     = [create_call_A
          (JObj [(''path'', JStr ''/en/guide''), (''title'', JStr ''Guide''), (''content'', JStr ''Text'')])
          ''en/guide'']
   \<and> prefix ''Failed to create page after multiple attempts''
        (result_text (fst (callTool_A (test_env empty_server) ''wiki_create_page''
           (JObj [(''path'', JStr ''/en/guide''), (''title'', JStr ''Guide''), (''content'', JStr ''Text'')]))))"
proof -
  define args where
    "args = JObj [(''path'', JStr ''/en/guide''), (''title'', JStr ''Guide''), (''content'', JStr ''Text'')]"
  have valid: "isCreatePageArgs args" by (simp add: args_def isCreatePageArgs_def)
  have path: "get_prop args ''path'' = JStr ''/en/guide''" by (simp add: args_def)
  have vs: "[''en/guide''] = generatePathVariations ''/en/guide''"
    by (simp add: generatePathVariations_eq normalizePath_def substring1_def ascii_letter_def)
  have nc: "\<And>log q. \<not> create_accepted_A (test_env empty_server) args log q"
    by (simp add: create_accepted_A_def test_env_def empty_server_def create_succeeded_A_def
                  guarded_def js_and_def)
  note inst = create_exhausted_message[OF valid path vs, of "test_env empty_server"]
  from inst[THEN conjunct1] nc
  have e: "isError (fst (callTool_A (test_env empty_server) ''wiki_create_page'' args))" by simp
  from inst[THEN conjunct2, THEN conjunct1] e show ?thesis
    unfolding args_def by simp
qed

theorem create_exhausted_message_counterexample:
  "length (snd (callTool_A (test_env rejecting_server) ''wiki_create_page''
      (JObj [(''path'', JStr ''/ja/home''), (''title'', JStr ''T''), (''content'', JStr ''C'')]))) = 1
   \<and> isError (fst (callTool_A (test_env rejecting_server) ''wiki_create_page''
      (JObj [(''path'', JStr ''/ja/home''), (''title'', JStr ''T''), (''content'', JStr ''C'')])))
   \<and> prefix ''Failed to create page after multiple attempts''
        (result_text (fst (callTool_A (test_env rejecting_server) ''wiki_create_page''
           (JObj [(''path'', JStr ''/ja/home''), (''title'', JStr ''T''), (''content'', JStr ''C'')]))))
   \<and> length (snd (wiki_create_page_C (test_env rejecting_server)
      (JObj [(''path'', JStr ''/home''), (''title'', JStr ''T''), (''content'', JStr ''C'')]) [])) = 1
   \<and> (\<exists>r. fst (wiki_create_page_C (test_env rejecting_server)
             (JObj [(''path'', JStr ''/home''), (''title'', JStr ''T''), (''content'', JStr ''C'')]) []) = Inr r
          \<and> isError r
          \<and> prefix ''Failed to create page after multiple attempts'' (result_text r))"
proof -
  define args where
    "args = JObj [(''path'', JStr ''/ja/home''), (''title'', JStr ''T''), (''content'', JStr ''C'')]"
  define args2 where
    "args2 = JObj [(''path'', JStr ''/home''), (''title'', JStr ''T''), (''content'', JStr ''C'')]"
  have valid: "isCreatePageArgs args" "isCreatePageArgs args2"
    by (simp_all add: args_def args2_def isCreatePageArgs_def)
  have path: "get_prop args ''path'' = JStr ''/ja/home''" "get_prop args2 ''path'' = JStr ''/home''"
    by (simp_all add: args_def args2_def)
  have vs: "generatePathVariations ''/ja/home'' = [''ja/home'']"
    by (simp add: generatePathVariations_eq normalizePath_def substring1_def ascii_letter_def)
  have nc: "\<And>log q. \<not> create_accepted_A (test_env rejecting_server) args log q"
    by (simp add: create_accepted_A_def test_env_def rejecting_server_def)
  have nc2: "\<And>log q. \<not> create_accepted_C (test_env rejecting_server) args2 log q"
    by (simp add: create_accepted_C_def test_env_def rejecting_server_def)
  note a = wiki_create_page_A_calls[OF valid(1) path(1), of "test_env rejecting_server"]
  from a nc have e: "isError (fst (callTool_A (test_env rejecting_server) ''wiki_create_page'' args))"
    and l: "length (snd (callTool_A (test_env rejecting_server) ''wiki_create_page'' args)) = 1"
    by (simp_all add: vs)
  from a e have "prefix create_exhausted_text_A
                   (result_text (fst (callTool_A (test_env rejecting_server) ''wiki_create_page'' args)))"
    by simp
  then obtain t where
    "result_text (fst (callTool_A (test_env rejecting_server) ''wiki_create_page'' args))
       = create_exhausted_text_A @ t"
    by (auto simp: prefix_def)
  with prefix_exhausted_A[of t]
  have pa: "prefix ''Failed to create page after multiple attempts''
              (result_text (fst (callTool_A (test_env rejecting_server) ''wiki_create_page'' args)))"
    by simp
  from wiki_create_page_C_calls[OF valid(2) path(2), of "test_env rejecting_server"] nc2
  have c: "length (snd (wiki_create_page_C (test_env rejecting_server) args2 [])) = 1
           \<and> (\<exists>r. fst (wiki_create_page_C (test_env rejecting_server) args2 []) = Inr r
                  \<and> isError r
                  \<and> prefix ''Failed to create page after multiple attempts'' (result_text r))"
    by auto
  from e l pa c show ?thesis unfolding args_def args2_def by blast
qed









end
